theory Spec2Isabelle
  imports Main
begin

section \<open>The opentransport client: data model\<close>

text \<open>
  The Go package \<^verbatim>\<open>opentransport\<close> is embedded function by function. A Go \<^verbatim>\<open>string\<close> and a
  \<^verbatim>\<open>[]byte\<close> are both byte lists (\<^typ>\<open>string\<close>); a nil slice is the empty list. A Go \<^verbatim>\<open>int\<close>
  is an \<^typ>\<open>int\<close>; the only arithmetic that can leave the 64-bit range, the conversion of the
  pause to a duration, has its wrap-around written out. A pointer that may be nil is an
  \<^typ>\<open>'a option\<close>. A pair \<^verbatim>\<open>(value, error)\<close> of which exactly one is set is a sum with the
  error on the left. The loggers of the client only print and are left out of the state.
\<close>

type_synonym bytes = string

text \<open>Every error value the package creates, one constructor per creation site; a
  constructor with an \<open>error\<close> argument wraps that error (\<^verbatim>\<open>%w\<close>).\<close>

datatype error =
    Lib string
      \<comment> \<open>an error made by the standard library (net/url, net/http, io, encoding/json, time)\<close>
  | ConfigNil                    \<comment> \<open>client config cannot be nil\<close>
  | NoApiUrl                     \<comment> \<open>please provide a api url\<close>
  | NoApiUrlHost                 \<comment> \<open>please provide a valid api url host\<close>
  | NoApiUrlScheme               \<comment> \<open>please provide a valid api url scheme\<close>
  | BadMaxRetry                  \<comment> \<open>please provide a max retry between 0 and 10\<close>
  | BadRetryPause                \<comment> \<open>please provide a max retry pause more than 1 seconds\<close>
  | InvalidClientConfig error    \<comment> \<open>opentransport: invalid client config: %w\<close>
  | RetryOptionsFailed error     \<comment> \<open>failed to configure retry options: %w\<close>
  | RequestCreationFailed error  \<comment> \<open>failed to create new request: %w\<close>
  | InvalidMethod string         \<comment> \<open>the request has an invalid http method %s. (only GET is allowed)\<close>
  | BodyNotAllowed               \<comment> \<open>the request should not contain a body\<close>
  | NoScheme                     \<comment> \<open>a valid protocol scheme should be defined\<close>
  | NoHost                       \<comment> \<open>a valid host should be defined\<close>
  | InvalidHttpRequest error     \<comment> \<open>opentransport: invalid http request: %w\<close>
  | HttpRequestFailed error      \<comment> \<open>failed to proceed http request: %w\<close>
  | ServerError string           \<comment> \<open>remote server responded with an error: %s (the status line)\<close>
  | BodyReadFailed error int     \<comment> \<open>failed to parse response (%d): %v\<close>
  | EmptyServerResponse          \<comment> \<open>server response of the http request is empty\<close>
  | PerformFailed int            \<comment> \<open>failed to perform the http request after %d retries\<close>
  | ResponseBufferEmpty          \<comment> \<open>response buffer is empty\<close>
  | ParseResponseFailed error    \<comment> \<open>failed to parse response: %w\<close>
  | EmptyFilter string nat       \<comment> \<open>%s filter at index %d cannot be empty\<close>
  | NoLocationName               \<comment> \<open>no location name or id to search for\<close>
  | ZeroDate                     \<comment> \<open>provided date is zero: please provide a valid time.Time as date\<close>
  | BuildUrlPathFailed error     \<comment> \<open>failed to build url path: %w\<close>
  | ParseTimeError               \<comment> \<open>any error of \<^verbatim>\<open>time.Parse\<close> (a \<^verbatim>\<open>*time.ParseError\<close>)\<close>
  | MarshalYearRange             \<comment> \<open>Time.MarshalJSON: year outside of range [0,9999]\<close>

subsection \<open>Configuration and client\<close>

text \<open>The fields of \<^verbatim>\<open>url.URL\<close> that the package reads or writes.\<close>

record url_URL =
  Scheme :: string
  Host :: string
  Path :: string

record clientConfig =
  apiUrl :: "url_URL option"
  userAgent :: string
  maxRetry :: int
  maxRetryPause :: int

definition DefaultUserAgent :: string where
  "DefaultUserAgent = ''Golang OpenTransport Client/v1.0''"

definition DefaultMaxRetry :: int where
  "DefaultMaxRetry = 3"

definition DefaultRetryPause :: int where
  "DefaultRetryPause = 5"

text \<open>\<^verbatim>\<open>url.Parse(DefaultApiURL)\<close>, the parsed form of
  \<^verbatim>\<open>https://transport.opendata.ch/v1/\<close>.\<close>

definition DefaultApiURL :: url_URL where
  "DefaultApiURL = \<lparr>Scheme = ''https'', Host = ''transport.opendata.ch'', Path = ''/v1/''\<rparr>"

text \<open>The client: its configuration. The \<^verbatim>\<open>http.Client\<close> it holds is the \<open>server\<close> of the
  world below; the three services only point back to the client.\<close>

record Client =
  cfg :: clientConfig

definition validRetry :: "int \<Rightarrow> int \<Rightarrow> error + bool" where
  "validRetry attempts pause =
     (if attempts < 0 \<or> attempts > 10 then Inl BadMaxRetry
      else if pause < 1 then Inl BadRetryPause
      else Inr True)"

definition validClientConfig :: "clientConfig option \<Rightarrow> error + clientConfig" where
  "validClientConfig c =
     (case c of
        None \<Rightarrow> Inl ConfigNil
      | Some cfg0 \<Rightarrow>
          (let cfg1 = (if length (userAgent cfg0) = 0
                       then cfg0\<lparr>userAgent := DefaultUserAgent\<rparr> else cfg0)
           in case apiUrl cfg1 of
                None \<Rightarrow> Inl NoApiUrl
              | Some u \<Rightarrow>
                  if length (Host u) = 0 then Inl NoApiUrlHost
                  else if length (Scheme u) = 0 then Inl NoApiUrlScheme
                  else (case validRetry (maxRetry cfg1) (maxRetryPause cfg1) of
                          Inl err \<Rightarrow> Inl err
                        | Inr _ \<Rightarrow> Inr cfg1)))"

definition HasSuffix :: "string \<Rightarrow> string \<Rightarrow> bool" where
  "HasSuffix s suffix =
     (length s \<ge> length suffix \<and> drop (length s - length suffix) s = suffix)"

definition newClientWithConfig :: "clientConfig option \<Rightarrow> error + Client" where
  "newClientWithConfig c =
     (case validClientConfig c of
        Inl err \<Rightarrow> Inl (InvalidClientConfig err)
      | Inr cfg1 \<Rightarrow>
          Inr \<lparr>cfg = cfg1\<lparr>apiUrl :=
                  map_option (\<lambda>u. if \<not> HasSuffix (Path u) ''/''
                                    then u\<lparr>Path := Path u @ ''/''\<rparr> else u) (apiUrl cfg1)\<rparr>\<rparr>)"

text \<open>\<^verbatim>\<open>NewClient\<close> drops the error of \<^verbatim>\<open>newClientWithConfig\<close> and returns the pointer it got,
  which is nil on an error.\<close>

definition NewClient :: "Client option" where
  "NewClient =
     (case newClientWithConfig
             (Some \<lparr>apiUrl = Some DefaultApiURL, userAgent = DefaultUserAgent,
                    maxRetry = DefaultMaxRetry, maxRetryPause = DefaultRetryPause\<rparr>) of
        Inl _ \<Rightarrow> None
      | Inr c \<Rightarrow> Some c)"

definition UserAgent :: "Client \<Rightarrow> string \<Rightarrow> Client" where
  "UserAgent c ua =
     (if length ua > 0 then c\<lparr>cfg := (cfg c)\<lparr>userAgent := ua\<rparr>\<rparr>
      else c\<lparr>cfg := (cfg c)\<lparr>userAgent := DefaultUserAgent\<rparr>\<rparr>)"

text \<open>\<^verbatim>\<open>MaxRetry\<close> returns its error (\<open>None\<close> is nil) and the client after the call.\<close>

definition MaxRetry :: "Client \<Rightarrow> int \<Rightarrow> int \<Rightarrow> error option \<times> Client" where
  "MaxRetry c attempts pause =
     (case validRetry attempts pause of
        Inl err \<Rightarrow> (Some (RetryOptionsFailed err), c)
      | Inr _ \<Rightarrow> (None, c\<lparr>cfg := (cfg c)\<lparr>maxRetry := attempts, maxRetryPause := pause\<rparr>\<rparr>))"

subsection \<open>Requests\<close>

datatype Context = Background | Caller nat

text \<open>The fields of \<^verbatim>\<open>http.Request\<close> that the package or \<^verbatim>\<open>http.NewRequestWithContext\<close>
  sets: the method, the parsed URL, the host, the header (field name to values), the body
  (nil for none) and the context.\<close>

record http_Request =
  Method :: string
  URL :: url_URL
  RequestHost :: string
  Header :: "(string \<times> string list) list"
  Body :: "bytes option"
  Ctx :: Context

definition validRequest :: "http_Request \<Rightarrow> error + bool" where
  "validRequest req =
     (if Method req \<noteq> ''GET'' then Inl (InvalidMethod (Method req))
      else if Body req \<noteq> None then Inl BodyNotAllowed
      else if length (Scheme (URL req)) = 0 then Inl NoScheme
      else if length (RequestHost req) = 0 then Inl NoHost
      else Inr True)"

text \<open>\<^verbatim>\<open>removeEmptyPort\<close> of net/http: a host that ends in a colon loses it.\<close>

definition removeEmptyPort :: "string \<Rightarrow> string" where
  "removeEmptyPort host = (if HasSuffix host '':'' then butlast host else host)"

text \<open>
  \<^verbatim>\<open>http.NewRequestWithContext(ctx, "GET", url, nil)\<close> with a context that is not nil, as
  \<^verbatim>\<open>NewRequest\<close> calls it: the method is valid, so the only failure is the one of
  \<^verbatim>\<open>url.Parse\<close>. The parser of net/url is a parameter, \<open>url_Parse\<close>.
\<close>

definition NewRequestWithContext ::
  "(string \<Rightarrow> error + url_URL) \<Rightarrow> Context \<Rightarrow> string \<Rightarrow> error + http_Request" where
  "NewRequestWithContext url_Parse ctx url =
     (case url_Parse url of
        Inl err \<Rightarrow> Inl err
      | Inr u0 \<Rightarrow>
          (let u = u0\<lparr>Host := removeEmptyPort (Host u0)\<rparr>
           in Inr \<lparr>Method = ''GET'', URL = u, RequestHost = Host u, Header = [],
                   Body = None, Ctx = ctx\<rparr>))"

text \<open>
  \<^verbatim>\<open>Client.NewRequest\<close>. The context is \<open>None\<close> for nil. \<open>url_String\<close> is \<^verbatim>\<open>URL.String\<close> of
  net/url, which \<^verbatim>\<open>%s\<close> prints the API URL with; the configuration of a client has an API
  URL (\<^verbatim>\<open>newClientWithConfig\<close> refuses one without), a nil one makes Go print
  \<^verbatim>\<open><nil>\<close>, written as \<open>url_String_nil\<close>.
\<close>

definition url_String_nil :: string where
  "url_String_nil = ''<nil>''"

definition NewRequest ::
  "(string \<Rightarrow> error + url_URL) \<Rightarrow> (url_URL \<Rightarrow> string) \<Rightarrow>
   Client \<Rightarrow> Context option \<Rightarrow> string \<Rightarrow> error + http_Request" where
  "NewRequest url_Parse url_String c ctx0 path =
     (let ctx = (case ctx0 of None \<Rightarrow> Background | Some x \<Rightarrow> x);
          reqUrl = (case apiUrl (cfg c) of None \<Rightarrow> url_String_nil | Some u \<Rightarrow> url_String u) @ path
      in case NewRequestWithContext url_Parse ctx reqUrl of
           Inl err \<Rightarrow> Inl (RequestCreationFailed err)
         | Inr req \<Rightarrow> Inr req)"

subsection \<open>The transport executor\<close>

text \<open>
  What \<^verbatim>\<open>httpClient.Do\<close> returns: an error, a nil response without an error, or a response
  with its status code, its status line and the outcome of reading its body.
\<close>

datatype http_result =
    HttpFail error
  | HttpNil
  | HttpResponse (StatusCode: int) (Status: string) (ReadAll: "error + bytes")

text \<open>
  The world outside the client: \<open>server k req\<close> is the outcome of the exchange of \<open>req\<close>
  when \<open>k\<close> exchanges came before it, and \<open>trace\<close> lists, oldest first, the exchanges made
  and the pauses slept (in nanoseconds).
\<close>

datatype event = Exchange http_Request | Sleep int

record world =
  server :: "nat \<Rightarrow> http_Request \<Rightarrow> http_result"
  trace :: "event list"

fun is_Exchange :: "event \<Rightarrow> bool" where
  "is_Exchange (Exchange _) = True"
| "is_Exchange (Sleep _) = False"

definition attempts_made :: "world \<Rightarrow> nat" where
  "attempts_made w = length (filter is_Exchange (trace w))"

definition StatusInternalServerError :: int where
  "StatusInternalServerError = 500"

definition StatusOK :: int where
  "StatusOK = 200"

text \<open>The closure that \<^verbatim>\<open>Do\<close> hands to \<^verbatim>\<open>retry\<close>: one exchange and its classification.\<close>

definition exchange :: "http_Request \<Rightarrow> world \<Rightarrow> (error + bytes) \<times> world" where
  "exchange req w =
     (let w' = w\<lparr>trace := trace w @ [Exchange req]\<rparr>
      in case server w (attempts_made w) req of
           HttpFail err \<Rightarrow> (Inl (HttpRequestFailed err), w')
         | HttpNil \<Rightarrow> (Inl EmptyServerResponse, w')
         | HttpResponse s st body \<Rightarrow>
             if s \<ge> StatusInternalServerError then (Inl (ServerError st), w')
             else if s = StatusOK then
               (case body of
                  Inl err \<Rightarrow> (Inl (BodyReadFailed err s), w')
                | Inr b \<Rightarrow> (Inr b, w'))
             else (Inr [], w'))"

text \<open>\<^verbatim>\<open>time.Duration(n) * time.Second\<close>: a product of two \<^verbatim>\<open>int64\<close>, which wraps.\<close>

definition wrap64 :: "int \<Rightarrow> int" where
  "wrap64 x = (x + 2 ^ 63) mod 2 ^ 64 - 2 ^ 63"

definition Second :: int where
  "Second = 1000000000"

text \<open>\<^verbatim>\<open>Client.retry\<close>: the recursion of the source, on the remaining attempts.\<close>

function retry ::
  "int \<Rightarrow> int \<Rightarrow> (world \<Rightarrow> (error + bytes) \<times> world) \<Rightarrow> world \<Rightarrow> (error + bytes) \<times> world" where
  "retry attempts sleep f w =
     (case f w of
        (Inl err, w1) \<Rightarrow>
          if attempts - 1 > 0
          then retry (attempts - 1) sleep f (w1\<lparr>trace := trace w1 @ [Sleep sleep]\<rparr>)
          else (Inl err, w1)
      | (Inr r, w1) \<Rightarrow> (Inr r, w1))"
  by pat_completeness auto
termination
  by (relation "measure (\<lambda>(attempts, sleep, f, w). nat attempts)") auto

definition Do :: "Client \<Rightarrow> http_Request \<Rightarrow> world \<Rightarrow> (error + bytes) \<times> world" where
  "Do c req w =
     (case validRequest req of
        Inl err \<Rightarrow> (Inl (InvalidHttpRequest err), w)
      | Inr _ \<Rightarrow>
          (let pause = wrap64 (maxRetryPause (cfg c) * Second)
           in case retry (maxRetry (cfg c)) pause (exchange req) w of
                (Inl err, w') \<Rightarrow> (Inl (PerformFailed (maxRetry (cfg c))), w')
              | (Inr r, w') \<Rightarrow> (Inr r, w')))"

subsection \<open>Bytes, digits and the string helpers of the standard library\<close>

definition isDigit :: "char \<Rightarrow> bool" where
  "isDigit c = (48 \<le> (of_char c :: int) \<and> (of_char c :: int) \<le> 57)"

definition digitVal :: "char \<Rightarrow> int" where
  "digitVal c = of_char c - 48"

definition digitChar :: "int \<Rightarrow> char" where
  "digitChar n = char_of (48 + n)"

text \<open>The value of a string of decimal digits, most significant first.\<close>

definition decimal :: "string \<Rightarrow> int" where
  "decimal ds = foldl (\<lambda>n ch. n * 10 + digitVal ch) 0 ds"

text \<open>The decimal digits of a number, as \<^verbatim>\<open>appendInt\<close> and \<^verbatim>\<open>%d\<close> write them.\<close>

function digits :: "int \<Rightarrow> string" where
  "digits n = (if n < 10 then [digitChar n] else digits (n div 10) @ [digitChar (n mod 10)])"
  by pat_completeness auto
termination
  by (relation "measure nat") auto

declare digits.simps [simp del]

definition HasPrefix :: "string \<Rightarrow> string \<Rightarrow> bool" where
  "HasPrefix s prefix = (length s \<ge> length prefix \<and> take (length prefix) s = prefix)"

text \<open>\<^verbatim>\<open>strings.Contains\<close>: \<open>substr\<close> starts at some position of \<open>s\<close>.\<close>

fun Contains :: "string \<Rightarrow> string \<Rightarrow> bool" where
  "Contains [] substr = HasPrefix [] substr"
| "Contains (c # s) substr = (HasPrefix (c # s) substr \<or> Contains s substr)"

text \<open>\<^verbatim>\<open>strings.Trim\<close>: every leading and every trailing byte of the cutset is removed.\<close>

definition Trim :: "string \<Rightarrow> string \<Rightarrow> string" where
  "Trim s cutset =
     rev (dropWhile (\<lambda>c. c \<in> set cutset) (rev (dropWhile (\<lambda>c. c \<in> set cutset) s)))"

text \<open>
  \<^verbatim>\<open>strconv.Atoi\<close> on a 64-bit platform. Up to 18 bytes the fast path runs: a sign, then
  digits only. Longer (or empty) input goes to \<^verbatim>\<open>ParseInt(s, 10, 0)\<close>, which also checks
  the range of \<^verbatim>\<open>int64\<close>. The error is a \<^verbatim>\<open>*strconv.NumError\<close>, written \<open>Lib\<close>.
\<close>

definition ErrSyntax :: error where
  "ErrSyntax = Lib ''invalid syntax''"

definition ErrRange :: error where
  "ErrRange = Lib ''value out of range''"

definition isSign :: "char \<Rightarrow> bool" where
  "isSign c = (c = CHR ''-'' \<or> c = CHR ''+'')"

text \<open>\<^verbatim>\<open>ParseUint(s, 10, 64)\<close>: the loop over the bytes, with the accumulator \<open>n\<close>. The
  cutoff test and the wrap-around test of the source both say that \<open>n * 10 + d\<close> does not
  fit 64 bits.\<close>

fun ParseUint_loop :: "int \<Rightarrow> string \<Rightarrow> error + int" where
  "ParseUint_loop n [] = Inr n"
| "ParseUint_loop n (c # cs) =
     (if \<not> isDigit c then Inl ErrSyntax
      else if n \<ge> (2 ^ 64 - 1) div 10 + 1 then Inl ErrRange
      else if n * 10 + digitVal c > 2 ^ 64 - 1 then Inl ErrRange
      else ParseUint_loop (n * 10 + digitVal c) cs)"

definition ParseUint :: "string \<Rightarrow> error + int" where
  "ParseUint s = (if s = [] then Inl ErrSyntax else ParseUint_loop 0 s)"

definition ParseInt :: "string \<Rightarrow> error + int" where
  "ParseInt s0 =
     (if s0 = [] then Inl ErrSyntax
      else
        (let neg = (hd s0 = CHR ''-'');
             s = (if isSign (hd s0) then tl s0 else s0)
         in case ParseUint s of
              Inl err \<Rightarrow> Inl err
            | Inr un \<Rightarrow>
                if \<not> neg \<and> un \<ge> 2 ^ 63 then Inl ErrRange
                else if neg \<and> un > 2 ^ 63 then Inl ErrRange
                else Inr (if neg then - un else un)))"

definition Atoi :: "string \<Rightarrow> error + int" where
  "Atoi s0 =
     (if 0 < length s0 \<and> length s0 < 19 then
        (let s = (if isSign (hd s0) then tl s0 else s0)
         in if isSign (hd s0) \<and> length s < 1 then Inl ErrSyntax
            else if \<not> list_all isDigit s then Inl ErrSyntax
            else Inr (if hd s0 = CHR ''-'' then - decimal s else decimal s))
      else ParseInt s0)"

text \<open>
  \<^verbatim>\<open>url.PathEscape\<close>: every byte is kept or written as \<^verbatim>\<open>%XX\<close>. In a path segment
  the letters, the digits and \<^verbatim>\<open>-_.~$&+:=@\<close> are kept.
\<close>

definition isAlnum :: "char \<Rightarrow> bool" where
  "isAlnum c =
     (let n = (of_char c :: nat)
      in (97 \<le> n \<and> n \<le> 122) \<or> (65 \<le> n \<and> n \<le> 90) \<or> (48 \<le> n \<and> n \<le> 57))"

definition shouldEscape :: "char \<Rightarrow> bool" where
  "shouldEscape c =
     (if isAlnum c then False
      else if c \<in> set ''-_.~'' then False
      else if c \<in> set ''$&+:=@'' then False
      else True)"

definition upperhex :: "nat \<Rightarrow> char" where
  "upperhex n = ''0123456789ABCDEF'' ! n"

definition PathEscape :: "string \<Rightarrow> string" where
  "PathEscape s =
     concat (map (\<lambda>c. if shouldEscape c
                       then [CHR ''%'', upperhex (of_char c div 16), upperhex (of_char c mod 16)]
                       else [c]) s)"

subsection \<open>Times and the isoDate codec\<close>

text \<open>
  A \<^verbatim>\<open>time.Time\<close> is presented by what its methods show of it: the date and the clock in
  its own location, and the offset of that location in seconds east of UTC. Two values with
  the same fields are the same instant. The zero \<^verbatim>\<open>Time\<close> is January 1 of year 1, 00:00 UTC.
  The name of the location (UTC, Local or a fixed zone) is not part of the model.
\<close>

record time_Time =
  year :: int
  month :: int
  day :: int
  hour :: int
  minute :: int
  second :: int
  nsec :: int
  zoneOffset :: int

definition zeroTime :: time_Time where
  "zeroTime = \<lparr>year = 1, month = 1, day = 1, hour = 0, minute = 0, second = 0, nsec = 0,
                zoneOffset = 0\<rparr>"

record isoDate =
  Time :: time_Time

definition isLeap :: "int \<Rightarrow> bool" where
  "isLeap y = (y mod 4 = 0 \<and> (y mod 100 \<noteq> 0 \<or> y mod 400 = 0))"

definition daysIn :: "int \<Rightarrow> int \<Rightarrow> int" where
  "daysIn m y =
     (if m = 2 \<and> isLeap y then 29
      else [31, 28, 31, 30, 31, 30, 31, 31, 30, 31, 30, 31] ! nat (m - 1))"

text \<open>The values a \<^verbatim>\<open>time.Time\<close> can show: a date of the calendar and a time of the day.\<close>

definition validTime :: "time_Time \<Rightarrow> bool" where
  "validTime t =
     (1 \<le> month t \<and> month t \<le> 12 \<and> 1 \<le> day t \<and> day t \<le> daysIn (month t) (year t) \<and>
      0 \<le> hour t \<and> hour t < 24 \<and> 0 \<le> minute t \<and> minute t < 60 \<and>
      0 \<le> second t \<and> second t < 60 \<and> 0 \<le> nsec t \<and> nsec t < 1000000000)"

text \<open>
  \<^verbatim>\<open>time.Parse\<close> of Go 1.14 (the version of the repository's workflow), specialised to the
  one layout the package parses with, \<^verbatim>\<open>2006-01-02T15:04:05Z0700\<close>. The helpers are those
  of \<^verbatim>\<open>time/format.go\<close>. Every failure is the one error \<open>ParseTimeError\<close>.
\<close>

definition isDigitAt :: "string \<Rightarrow> nat \<Rightarrow> bool" where
  "isDigitAt s i = (if length s \<le> i then False else isDigit (s ! i))"

text \<open>\<^verbatim>\<open>getnum\<close>: one or two digits, exactly two when \<open>fixed\<close>.\<close>

definition getnum :: "string \<Rightarrow> bool \<Rightarrow> error + (int \<times> string)" where
  "getnum s fixed =
     (if \<not> isDigitAt s 0 then Inl ParseTimeError
      else if \<not> isDigitAt s 1 then
        (if fixed then Inl ParseTimeError else Inr (digitVal (s ! 0), drop 1 s))
      else Inr (digitVal (s ! 0) * 10 + digitVal (s ! 1), drop 2 s))"

text \<open>\<^verbatim>\<open>atoi\<close> of package time: an optional sign, then digits to the end (also none).
  \<^verbatim>\<open>leadingInt\<close> fails on a number beyond 63 bits.\<close>

definition atoi :: "string \<Rightarrow> error + int" where
  "atoi s0 =
     (let neg = (s0 \<noteq> [] \<and> hd s0 = CHR ''-'');
          s = (if s0 \<noteq> [] \<and> isSign (hd s0) then tl s0 else s0)
      in if \<not> list_all isDigit s \<or> decimal s \<ge> 2 ^ 63 then Inl ParseTimeError
         else Inr (if neg then - decimal s else decimal s))"

text \<open>\<^verbatim>\<open>skip\<close> for a one-byte literal of the layout that is not a space.\<close>

definition skip :: "string \<Rightarrow> char \<Rightarrow> error + string" where
  "skip v c = (if length v = 0 \<or> v ! 0 \<noteq> c then Inl ParseTimeError else Inr (drop 1 v))"

text \<open>\<^verbatim>\<open>parseNanoseconds(value, n)\<close> for a \<open>value\<close> that starts with a period and a digit,
  \<open>n\<close> being the length of the period and the digits after it.\<close>

definition parseNanoseconds :: "string \<Rightarrow> error + (int \<times> string)" where
  "parseNanoseconds v =
     (let ds = takeWhile isDigit (drop 1 v);
          n = 1 + length ds
      in case atoi ds of
           Inl err \<Rightarrow> Inl err
         | Inr ns \<Rightarrow>
             if ns < 0 \<or> 1000000000 \<le> ns then Inl ParseTimeError
             else Inr (ns * 10 ^ (10 - n), drop n v))"

text \<open>
  The element \<^verbatim>\<open>05\<close>: two digits below 60. No fraction follows it in the layout, so a
  fraction in the input (a period and a digit) is read as well. The source sets the error
  of \<^verbatim>\<open>getnum\<close> aside until the end of the case; by then \<^verbatim>\<open>parseNanoseconds\<close> has replaced
  it when the input goes on with a fraction, the seconds being 0.
\<close>

definition parseSeconds :: "string \<Rightarrow> error + (int \<times> int \<times> string)" where
  "parseSeconds v =
     (let (sec, v', err) =
            (case getnum v True of
               Inl e \<Rightarrow> (0, v, Some e)
             | Inr (n, rest) \<Rightarrow> (n, rest, None))
      in if sec < 0 \<or> 60 \<le> sec then Inl ParseTimeError
         else if length v' \<ge> 2 \<and> v' ! 0 = CHR ''.'' \<and> isDigitAt v' 1 then
           (case parseNanoseconds v' of
              Inl e \<Rightarrow> Inl e
            | Inr (ns, v'') \<Rightarrow> Inr (sec, ns, v''))
         else (case err of Some e \<Rightarrow> Inl e | None \<Rightarrow> Inr (sec, 0, v')))"

text \<open>The element \<^verbatim>\<open>Z0700\<close>: a \<^verbatim>\<open>Z\<close> for UTC, or a sign and four bytes.\<close>

definition parseZone :: "string \<Rightarrow> error + (int \<times> string)" where
  "parseZone v =
     (if length v \<ge> 1 \<and> v ! 0 = CHR ''Z'' then Inr (0, drop 1 v)
      else if length v < 5 then Inl ParseTimeError
      else
        (case atoi (take 2 (drop 1 v)) of
           Inl err \<Rightarrow> Inl err
         | Inr hr \<Rightarrow>
             (case atoi (take 2 (drop 3 v)) of
                Inl err \<Rightarrow> Inl err
              | Inr mm \<Rightarrow>
                  if v ! 0 = CHR ''+'' then Inr ((hr * 60 + mm) * 60, drop 5 v)
                  else if v ! 0 = CHR ''-'' then Inr (- ((hr * 60 + mm) * 60), drop 5 v)
                  else Inl ParseTimeError)))"

text \<open>An early return on an error: the rest runs on the value of a successful step.\<close>

definition orReturn :: "error + 'a \<Rightarrow> ('a \<Rightarrow> error + 'b) \<Rightarrow> error + 'b" where
  "orReturn r rest = (case r of Inl err \<Rightarrow> Inl err | Inr x \<Rightarrow> rest x)"

definition check :: "bool \<Rightarrow> error + unit" where
  "check ok = (if ok then Inr () else Inl ParseTimeError)"

definition time_Parse :: "string \<Rightarrow> error + time_Time" where
  "time_Parse v0 =
     orReturn (check (\<not> (length v0 < 4 \<or> \<not> isDigitAt v0 0))) (\<lambda>_.
     orReturn (atoi (take 4 v0)) (\<lambda>y.
     orReturn (skip (drop 4 v0) CHR ''-'') (\<lambda>v1.
     orReturn (getnum v1 True) (\<lambda>(mo, v2).
     orReturn (check (\<not> (mo \<le> 0 \<or> 12 < mo))) (\<lambda>_.
     orReturn (skip v2 CHR ''-'') (\<lambda>v3.
     orReturn (getnum v3 True) (\<lambda>(d, v4).
     orReturn (skip v4 CHR ''T'') (\<lambda>v5.
     orReturn (getnum v5 False) (\<lambda>(h, v6).
     orReturn (check (\<not> (h < 0 \<or> 24 \<le> h))) (\<lambda>_.
     orReturn (skip v6 CHR '':'') (\<lambda>v7.
     orReturn (getnum v7 True) (\<lambda>(mi, v8).
     orReturn (check (\<not> (mi < 0 \<or> 60 \<le> mi))) (\<lambda>_.
     orReturn (skip v8 CHR '':'') (\<lambda>v9.
     orReturn (parseSeconds v9) (\<lambda>(sec, ns, v11).
     orReturn (parseZone v11) (\<lambda>(off, v12).
     orReturn (check (length v12 = 0)) (\<lambda>_.
     orReturn (check (\<not> (d < 1 \<or> d > daysIn mo y))) (\<lambda>_.
       Inr \<lparr>year = y, month = mo, day = d, hour = h, minute = mi, second = sec,
            nsec = ns, zoneOffset = off\<rparr>))))))))))))))))))"

text \<open>
  \<^verbatim>\<open>isoDate.UnmarshalJSON\<close>: the error (\<open>None\<close> is nil) and the receiver after the call.
\<close>

definition UnmarshalJSON :: "isoDate \<Rightarrow> bytes \<Rightarrow> error option \<times> isoDate" where
  "UnmarshalJSON d raw =
     (if Contains raw ''null'' \<or> length raw = 0 then (None, d)
      else
        (case time_Parse (Trim raw [CHR 0x22]) of
           Inl err \<Rightarrow> (Some err, d)
         | Inr t \<Rightarrow> (None, d\<lparr>Time := t\<rparr>)))"

text \<open>
  The encoder of an \<^verbatim>\<open>isoDate\<close> is the \<^verbatim>\<open>MarshalJSON\<close> of the embedded \<^verbatim>\<open>time.Time\<close>
  (the package declares none): the layout \<^verbatim>\<open>2006-01-02T15:04:05.999999999Z07:00\<close> between
  double quotes, for a year from 0 to 9999.
\<close>

definition appendInt :: "int \<Rightarrow> nat \<Rightarrow> string" where
  "appendInt x width =
     (let ds = digits \<bar>x\<bar>
      in (if x < 0 then ''-'' else []) @ replicate (width - length ds) CHR ''0'' @ ds)"

text \<open>\<^verbatim>\<open>formatNano(b, nanosec, 9, true)\<close>: nine digits without the trailing zeros, after a
  period; nothing when all nine are zero.\<close>

definition formatNano :: "int \<Rightarrow> string" where
  "formatNano ns =
     (let buf = appendInt (ns mod 1000000000) 9;
          kept = rev (dropWhile (\<lambda>c. c = CHR ''0'') (rev buf))
      in if kept = [] then [] else CHR ''.'' # kept)"

definition formatZone :: "int \<Rightarrow> string" where
  "formatZone offset =
     (if offset = 0 then ''Z''
      else
        (let zone = (if offset < 0 then - ((- offset) div 60) else offset div 60)
         in if zone < 0 then ''-'' @ appendInt ((- zone) div 60) 2 @ '':'' @ appendInt ((- zone) mod 60) 2
            else ''+'' @ appendInt (zone div 60) 2 @ '':'' @ appendInt (zone mod 60) 2))"

definition MarshalJSON :: "isoDate \<Rightarrow> error + bytes" where
  "MarshalJSON d =
     (let t = Time d
      in if year t < 0 \<or> year t \<ge> 10000 then Inl MarshalYearRange
         else Inr ([CHR 0x22] @ appendInt (year t) 4 @ ''-'' @ appendInt (month t) 2 @ ''-''
                   @ appendInt (day t) 2 @ ''T'' @ appendInt (hour t) 2 @ '':''
                   @ appendInt (minute t) 2 @ '':'' @ appendInt (second t) 2
                   @ formatNano (nsec t) @ formatZone (zoneOffset t) @ [CHR 0x22]))"

subsection \<open>The stationboard path\<close>

text \<open>\<^verbatim>\<open>isId\<close>: more than five bytes that \<^verbatim>\<open>strconv.Atoi\<close> accepts.\<close>

definition isId :: "string \<Rightarrow> bool" where
  "isId v =
     (if length v > 5 then (case Atoi v of Inr _ \<Rightarrow> True | Inl _ \<Rightarrow> False) else False)"

text \<open>\<^verbatim>\<open>convListParam\<close>: the loop over the values, with the index and the list so far.\<close>

fun convListParam_loop :: "nat \<Rightarrow> string \<Rightarrow> string list \<Rightarrow> string \<Rightarrow> error + string" where
  "convListParam_loop i paramList [] name = Inr paramList"
| "convListParam_loop i paramList (v # values) name =
     (if length v = 0 then Inl (EmptyFilter name i)
      else convListParam_loop (i + 1)
             (paramList @ ''&'' @ name @ ''[]='' @ PathEscape v) values name)"

definition convListParam :: "string list \<Rightarrow> string \<Rightarrow> error + string" where
  "convListParam values name = convListParam_loop 0 [] values name"

text \<open>A \<^verbatim>\<open>Transportation\<close> is a string; \<^verbatim>\<open>convSlice\<close> converts element by element.\<close>

type_synonym Transportation = string

definition convSlice :: "Transportation list \<Rightarrow> string list" where
  "convSlice list = map (\<lambda>s. s) list"

record StbOpts =
  Transportations :: "Transportation list"
  DateTime :: time_Time
  Arrival :: bool
  Limit :: int

text \<open>
  \<^verbatim>\<open>Time.IsZero\<close>: the instant is that of the zero \<^verbatim>\<open>Time\<close>. \<open>absSeconds\<close> counts the
  seconds of an instant from January 1 of year 1, 00:00 UTC.
\<close>

definition daysBefore :: "int \<Rightarrow> int" where
  "daysBefore m = [0, 31, 59, 90, 120, 151, 181, 212, 243, 273, 304, 334] ! nat (m - 1)"

definition absSeconds :: "time_Time \<Rightarrow> int" where
  "absSeconds t =
     (let y = year t - 1;
          d = 365 * y + y div 4 - y div 100 + y div 400 + daysBefore (month t)
              + (if isLeap (year t) \<and> month t \<ge> 3 then 1 else 0) + (day t - 1)
      in d * 86400 + hour t * 3600 + minute t * 60 + second t - zoneOffset t)"

definition IsZero :: "time_Time \<Rightarrow> bool" where
  "IsZero t = (absSeconds t = 0 \<and> nsec t = 0)"

text \<open>\<^verbatim>\<open>StationboardService.formatDate\<close>: the layout \<^verbatim>\<open>2006-01-02 15:04\<close>.\<close>

definition formatDate :: "time_Time \<Rightarrow> error + string" where
  "formatDate date =
     (if IsZero date then Inl ZeroDate
      else Inr (appendInt (year date) 4 @ ''-'' @ appendInt (month date) 2 @ ''-''
                @ appendInt (day date) 2 @ '' '' @ appendInt (hour date) 2 @ '':''
                @ appendInt (minute date) 2))"

text \<open>\<^verbatim>\<open>%d\<close> of an \<^verbatim>\<open>int\<close>.\<close>

definition formatInt :: "int \<Rightarrow> string" where
  "formatInt n = appendInt n 0"

definition buildUrlPath :: "string \<Rightarrow> StbOpts \<Rightarrow> error + string" where
  "buildUrlPath name opts =
     (if length name = 0 then Inl NoLocationName
      else
        (case convListParam (convSlice (Transportations opts)) ''transportations'' of
           Inl err \<Rightarrow> Inl err
         | Inr transportations \<Rightarrow>
             (let stationAttr = (if isId name then ''id'' else ''station'');
                  directionType = (if Arrival opts then ''arrival'' else ''departure'')
              in case formatDate (DateTime opts) of
                   Inl err \<Rightarrow> Inl (BuildUrlPathFailed err)
                 | Inr date \<Rightarrow>
                     Inr (''stationboard?'' @ stationAttr @ ''='' @ PathEscape name
                          @ ''&limit='' @ formatInt (Limit opts)
                          @ ''&type='' @ PathEscape directionType
                          @ ''&datetime='' @ PathEscape date @ transportations))))"

subsection \<open>The response decoders\<close>

text \<open>
  \<^verbatim>\<open>json.Unmarshal(raw, &v)\<close> is a parameter: \<open>unmarshal raw\<close> is the error it returns
  (\<open>None\<close> is nil) and the value it leaves in a fresh \<open>v\<close>. A decoder returns the pointer
  to its result (\<open>None\<close> is nil) and the error. The three result types are the type
  parameter \<open>'r\<close>.
\<close>

definition LocationService_parseResponse ::
  "(bytes \<Rightarrow> error option \<times> 'r) \<Rightarrow> bytes \<Rightarrow> 'r option \<times> error option" where
  "LocationService_parseResponse unmarshal raw =
     (if length raw = 0 then (None, Some ResponseBufferEmpty)
      else (let (err, locResp) = unmarshal raw in (Some locResp, err)))"

definition ConnectionService_parseResponse ::
  "(bytes \<Rightarrow> error option \<times> 'r) \<Rightarrow> bytes \<Rightarrow> 'r option \<times> error option" where
  "ConnectionService_parseResponse unmarshal raw =
     (if length raw = 0 then (None, Some ResponseBufferEmpty)
      else (let (err, conResp) = unmarshal raw
            in case err of
                 Some e \<Rightarrow> (None, Some (ParseResponseFailed e))
               | None \<Rightarrow> (Some conResp, err)))"

definition StationboardService_parseResponse ::
  "(bytes \<Rightarrow> error option \<times> 'r) \<Rightarrow> bytes \<Rightarrow> 'r option \<times> error option" where
  "StationboardService_parseResponse unmarshal raw =
     (if length raw = 0 then (None, Some ResponseBufferEmpty)
      else (let (err, stbResp) = unmarshal raw
            in case err of
                 Some e \<Rightarrow> (None, Some (ParseResponseFailed e))
               | None \<Rightarrow> (Some stbResp, err)))"

subsection \<open>Valid configurations and the values of the examples\<close>

text \<open>The invariant of a configuration: an API URL with a scheme and a host, 0 to 10
  retries and a pause of at least one second.\<close>

definition validConfig :: "clientConfig \<Rightarrow> bool" where
  "validConfig c =
     ((case apiUrl c of None \<Rightarrow> False | Some u \<Rightarrow> Scheme u \<noteq> [] \<and> Host u \<noteq> [])
      \<and> 0 \<le> maxRetry c \<and> maxRetry c \<le> 10 \<and> 1 \<le> maxRetryPause c)"

text \<open>A response with a status of 500 or more.\<close>

definition isServerError :: "http_result \<Rightarrow> bool" where
  "isServerError r = (case r of HttpResponse s st body \<Rightarrow> s \<ge> 500 | _ \<Rightarrow> False)"

text \<open>The client of the tests (\<^verbatim>\<open>MaxRetry(2, 1)\<close>), a request for the locations, and a world
  whose server answers every exchange with the same status and an empty body.\<close>

definition exampleClient :: Client where
  "exampleClient =
     \<lparr>cfg = \<lparr>apiUrl = Some DefaultApiURL, userAgent = DefaultUserAgent, maxRetry = 2,
             maxRetryPause = 1\<rparr>\<rparr>"

definition exampleRequest :: http_Request where
  "exampleRequest =
     \<lparr>Method = ''GET'',
      URL = \<lparr>Scheme = ''https'', Host = ''transport.opendata.ch'', Path = ''/v1/locations''\<rparr>,
      RequestHost = ''transport.opendata.ch'', Header = [], Body = None, Ctx = Background\<rparr>"

definition answering :: "int \<Rightarrow> world" where
  "answering s = \<lparr>server = (\<lambda>k req. HttpResponse s [] (Inr [])), trace = []\<rparr>"

text \<open>Instances of the two parameters of \<open>NewRequest\<close> that agree with net/url on the URL
  of the example.\<close>

definition exampleParse :: "string \<Rightarrow> error + url_URL" where
  "exampleParse s =
     (if s = ''https://transport.opendata.ch/v1/locations''
      then Inr \<lparr>Scheme = ''https'', Host = ''transport.opendata.ch'', Path = ''/v1/locations''\<rparr>
      else Inl (Lib ''parse''))"

definition exampleString :: "url_URL \<Rightarrow> string" where
  "exampleString u = Scheme u @ ''://'' @ Host u @ Path u"

text \<open>What \<^verbatim>\<open>strconv.Atoi\<close> accepts: an optional sign and one or more decimal digits whose
  value fits an \<^verbatim>\<open>int\<close> of 64 bits.\<close>

definition isDecimalInt :: "string \<Rightarrow> bool" where
  "isDecimalInt s =
     (let ds = (if s \<noteq> [] \<and> isSign (hd s) then tl s else s)
      in ds \<noteq> [] \<and> list_all isDigit ds \<and>
         (if hd s = CHR ''-'' then decimal ds \<le> 2 ^ 63 else decimal ds < 2 ^ 63))"

text \<open>
  The text of a time in the pattern \<^verbatim>\<open>YYYY-MM-DDTHH:MM:SS\<close> followed by the offset as a sign,
  two digits of hours and two digits of minutes.
\<close>

definition clockText :: "time_Time \<Rightarrow> string" where
  "clockText t =
     appendInt (year t) 4 @ ''-'' @ appendInt (month t) 2 @ ''-'' @ appendInt (day t) 2 @ ''T''
     @ appendInt (hour t) 2 @ '':'' @ appendInt (minute t) 2 @ '':'' @ appendInt (second t) 2"

definition offsetText :: "int \<Rightarrow> string" where
  "offsetText off =
     (if off < 0 then ''-'' else ''+'')
     @ appendInt (\<bar>off\<bar> div 3600) 2 @ appendInt (\<bar>off\<bar> div 60 mod 60) 2"

definition patternText :: "time_Time \<Rightarrow> string" where
  "patternText t = clockText t @ offsetText (zoneOffset t)"

text \<open>The bytes of those texts: digits and the marks between them.\<close>

definition plainChar :: "char \<Rightarrow> bool" where
  "plainChar c = (isDigit c \<or> c \<in> set ''-+:.TZ'')"

text \<open>A time of the fixtures, 2020-05-02 20:00:00 at two hours east of UTC, and the options
  of a stationboard search.\<close>

definition exampleTime :: time_Time where
  "exampleTime = \<lparr>year = 2020, month = 5, day = 2, hour = 20, minute = 0, second = 0, nsec = 0,
                   zoneOffset = 7200\<rparr>"

definition exampleOpts :: StbOpts where
  "exampleOpts =
     \<lparr>Transportations = [''tram''],
      DateTime = \<lparr>year = 2020, month = 5, day = 2, hour = 2, minute = 0, second = 0, nsec = 0,
                  zoneOffset = 0\<rparr>,
      Arrival = False, Limit = 3\<rparr>"

text \<open>An instance of the parameter of the decoders that agrees with encoding/json on the
  inputs of the examples: it accepts the empty object, leaving the fresh value \<open>zero\<close> as it
  is, and rejects \<^verbatim>\<open>{Invalid: Json}\<close> with a syntax error.\<close>

definition exampleUnmarshal :: "'r \<Rightarrow> bytes \<Rightarrow> error option \<times> 'r" where
  "exampleUnmarshal zero raw =
     (if raw = ''{}'' then (None, zero) else (Some (Lib ''invalid character''), zero))"

section \<open>Properties\<close>

subsection \<open>Request validation\<close>

text \<open>
  Claim C6. \<open>validRequest\<close> succeeds exactly when the method is GET, there is no body, the
  scheme of the URL is not empty and the host is not empty. It never returns false without
  an error, and the error it returns names a rule that the request breaks.
\<close>

theorem validRequest_iff:
  "(validRequest req = Inr True \<longleftrightarrow>
      Method req = ''GET'' \<and> Body req = None \<and> Scheme (URL req) \<noteq> [] \<and> RequestHost req \<noteq> [])
   \<and> validRequest req \<noteq> Inr False
   \<and> (\<forall>e. validRequest req = Inl e \<longrightarrow>
          (e = InvalidMethod (Method req) \<and> Method req \<noteq> ''GET'')
        \<or> (e = BodyNotAllowed \<and> Body req \<noteq> None)
        \<or> (e = NoScheme \<and> Scheme (URL req) = [])
        \<or> (e = NoHost \<and> RequestHost req = []))"
  by (auto simp: validRequest_def)

theorem validRequest_iff_witness:
  "validRequest exampleRequest = Inr True
   \<and> validRequest (exampleRequest\<lparr>Method := ''POST''\<rparr>) = Inl (InvalidMethod ''POST'')"
  using validRequest_iff [of exampleRequest]
    validRequest_iff [of "exampleRequest\<lparr>Method := ''POST''\<rparr>"]
  by (simp add: exampleRequest_def validRequest_def)

subsection \<open>The transport executor\<close>

text \<open>
  Claim C7. A request that \<open>validRequest\<close> refuses makes \<open>Do\<close> return that error, wrapped,
  and leaves the world as it was: no exchange and no pause.
\<close>

theorem Do_invalid_request:
  "validRequest req = Inl e \<Longrightarrow> Do c req w = (Inl (InvalidHttpRequest e), w)"
  by (simp add: Do_def)

theorem Do_invalid_request_witness:
  "Do exampleClient (exampleRequest\<lparr>Method := ''POST''\<rparr>) (answering 200)
     = (Inl (InvalidHttpRequest (InvalidMethod ''POST'')), answering 200)"
proof -
  have "validRequest (exampleRequest\<lparr>Method := ''POST''\<rparr>) = Inl (InvalidMethod ''POST'')"
    by (simp add: exampleRequest_def validRequest_def)
  then show ?thesis by (rule Do_invalid_request)
qed

text \<open>
  Claim C2. When the exchange of a valid request is answered with a status that is neither
  200 nor 500 or more, \<open>Do\<close> returns no error and an empty body after that one exchange; so
  does \<open>retry\<close>, whatever attempts it has left, without a pause and without a further exchange.
\<close>

theorem Do_pass_through:
  assumes "validRequest req = Inr True"
    and "server w (attempts_made w) req = HttpResponse s st body"
    and "s \<noteq> 200" and "\<not> s \<ge> 500"
  shows "Do c req w = (Inr [], w\<lparr>trace := trace w @ [Exchange req]\<rparr>)
       \<and> retry n p (exchange req) w = (Inr [], w\<lparr>trace := trace w @ [Exchange req]\<rparr>)"
  using assms by (simp add: Do_def exchange_def StatusOK_def StatusInternalServerError_def)

theorem Do_pass_through_witness:
  "Do exampleClient exampleRequest (answering 404) =
     (Inr [], \<lparr>server = server (answering 404), trace = [Exchange exampleRequest]\<rparr>)"
proof -
  have a: "validRequest exampleRequest = Inr True"
    by (simp add: exampleRequest_def validRequest_def)
  have b: "server (answering 404) (attempts_made (answering 404)) exampleRequest
             = HttpResponse 404 [] (Inr [])"
    by (simp add: answering_def)
  show ?thesis
    using Do_pass_through [OF a b, of exampleClient] by (simp add: answering_def)
qed

lemma attempts_made_simps [simp]:
  "attempts_made (w\<lparr>trace := trace w @ [Exchange req]\<rparr>) = Suc (attempts_made w)"
  "attempts_made (w\<lparr>trace := trace w @ [Sleep p]\<rparr>) = attempts_made w"
  by (simp_all add: attempts_made_def)

lemma exchange_server_error:
  "isServerError (server w (attempts_made w) req) \<Longrightarrow>
   \<exists>e. exchange req w = (Inl e, w\<lparr>trace := trace w @ [Exchange req]\<rparr>)"
  by (auto simp: exchange_def isServerError_def StatusInternalServerError_def
           split: http_result.splits)

text \<open>
  Claim C1. With \<open>maxRetry = 2\<close> and a server that answers every exchange of a valid
  request with a status of 500 or more, \<open>Do\<close> makes two exchanges, not three: the first
  one, one pause, and one retry. It then fails with \<open>PerformFailed 2\<close>.
\<close>

theorem Do_maxRetry_2_two_exchanges:
  assumes "maxRetry (cfg c) = 2"
    and "validRequest req = Inr True"
    and "\<forall>k. isServerError (server w k req)"
  shows "Do c req w =
           (Inl (PerformFailed 2),
            w\<lparr>trace := trace w @ [Exchange req, Sleep (wrap64 (maxRetryPause (cfg c) * Second)),
                                  Exchange req]\<rparr>)"
proof -
  let ?p = "wrap64 (maxRetryPause (cfg c) * Second)"
  let ?w1 = "w\<lparr>trace := trace w @ [Exchange req]\<rparr>"
  let ?w2 = "?w1\<lparr>trace := trace ?w1 @ [Sleep ?p]\<rparr>"
  let ?w3 = "?w2\<lparr>trace := trace ?w2 @ [Exchange req]\<rparr>"
  obtain e1 where e1: "exchange req w = (Inl e1, ?w1)"
    using exchange_server_error [of w req] assms(3) by blast
  have "isServerError (server ?w2 (attempts_made ?w2) req)"
    using assms(3) by simp
  then obtain e2 where e2: "exchange req ?w2 = (Inl e2, ?w3)"
    using exchange_server_error [of ?w2 req] by blast
  have "retry 2 ?p (exchange req) w = (Inl e2, ?w3)"
    using e1 e2 by (simp add: retry.simps [of 2] retry.simps [of 1] del: retry.simps)
  then show ?thesis
    using assms(1,2) by (simp add: Do_def)
qed

theorem Do_maxRetry_2_two_exchanges_witness:
  "Do exampleClient exampleRequest (answering 500) =
     (Inl (PerformFailed 2),
      \<lparr>server = server (answering 500),
       trace = [Exchange exampleRequest, Sleep 1000000000, Exchange exampleRequest]\<rparr>)
   \<and> attempts_made (snd (Do exampleClient exampleRequest (answering 500))) = 2"
proof -
  have a: "maxRetry (cfg exampleClient) = 2"
    by (simp add: exampleClient_def)
  have b: "validRequest exampleRequest = Inr True"
    by (simp add: exampleRequest_def validRequest_def)
  have c: "\<forall>k. isServerError (server (answering 500) k exampleRequest)"
    by (simp add: answering_def isServerError_def)
  show ?thesis
    using Do_maxRetry_2_two_exchanges [OF a b c]
    by (simp add: answering_def exampleClient_def wrap64_def Second_def attempts_made_def)
qed

subsection \<open>The configuration of a client\<close>

lemma validRetry_Inr: "(\<exists>b. validRetry a p = Inr b) \<longleftrightarrow> 0 \<le> a \<and> a \<le> 10 \<and> 1 \<le> p"
  by (auto simp: validRetry_def)

lemma validClientConfig_Inr:
  "validClientConfig c0 = Inr c1 \<Longrightarrow>
     \<exists>cf. c0 = Some cf \<and> validConfig cf \<and> validConfig c1 \<and> apiUrl c1 = apiUrl cf
          \<and> maxRetry c1 = maxRetry cf \<and> maxRetryPause c1 = maxRetryPause cf"
  by (auto simp: validClientConfig_def validConfig_def validRetry_def Let_def
           split: option.splits if_splits sum.splits)

lemma validClientConfig_valid:
  "validConfig cf \<Longrightarrow> \<exists>c1. validClientConfig (Some cf) = Inr c1"
  by (auto simp: validClientConfig_def validConfig_def validRetry_def Let_def
           split: option.splits if_splits sum.splits)

lemma newClientWithConfig_Inr:
  assumes "newClientWithConfig c0 = Inr c"
  shows "validConfig (cfg c) \<and> (\<exists>cf. c0 = Some cf \<and> validConfig cf)"
proof -
  from assms obtain c1 where v: "validClientConfig c0 = Inr c1"
    and c: "cfg c = c1\<lparr>apiUrl := map_option (\<lambda>u. if \<not> HasSuffix (Path u) ''/''
                                    then u\<lparr>Path := Path u @ ''/''\<rparr> else u) (apiUrl c1)\<rparr>"
    by (auto simp: newClientWithConfig_def split: sum.splits)
  from validClientConfig_Inr [OF v] obtain cf where cf: "c0 = Some cf" "validConfig cf"
    and c1: "validConfig c1" by blast
  from c1 have "validConfig (cfg c)"
    by (cases "apiUrl c1") (simp_all add: validConfig_def c)
  with cf show ?thesis by blast
qed

lemma newClientWithConfig_valid:
  "validConfig cf \<Longrightarrow> \<exists>c. newClientWithConfig (Some cf) = Inr c"
  using validClientConfig_valid [of cf] by (auto simp: newClientWithConfig_def)

text \<open>
  Claim C5. \<open>newClientWithConfig\<close> returns a client exactly for a configuration that is
  there and valid, and an error (and no client) for every other one; the configuration of
  the client it returns is valid, as is that of \<open>NewClient\<close>. \<open>MaxRetry\<close> with attempts
  outside 0..10 or a pause below 1 returns an error and the client unchanged; within the
  range it stores both values. \<open>MaxRetry\<close> and \<open>UserAgent\<close> keep a valid configuration valid.
\<close>

theorem live_client_config_valid:
  "((\<exists>c. newClientWithConfig c0 = Inr c) \<longleftrightarrow> (\<exists>cf. c0 = Some cf \<and> validConfig cf))
   \<and> ((\<exists>e. newClientWithConfig c0 = Inl e) \<longleftrightarrow> \<not> (\<exists>cf. c0 = Some cf \<and> validConfig cf))
   \<and> (\<forall>c. newClientWithConfig c0 = Inr c \<longrightarrow> validConfig (cfg c))
   \<and> (\<exists>c. NewClient = Some c \<and> validConfig (cfg c))
   \<and> (\<not> (0 \<le> a \<and> a \<le> 10 \<and> 1 \<le> p) \<longrightarrow> (\<exists>e. MaxRetry c a p = (Some e, c)))
   \<and> (0 \<le> a \<and> a \<le> 10 \<and> 1 \<le> p \<longrightarrow>
        MaxRetry c a p = (None, c\<lparr>cfg := (cfg c)\<lparr>maxRetry := a, maxRetryPause := p\<rparr>\<rparr>))
   \<and> (validConfig (cfg c) \<longrightarrow>
        validConfig (cfg (snd (MaxRetry c a p))) \<and> validConfig (cfg (UserAgent c ua)))"
proof -
  have 1: "(\<exists>c. newClientWithConfig c0 = Inr c) \<longleftrightarrow> (\<exists>cf. c0 = Some cf \<and> validConfig cf)"
    using newClientWithConfig_Inr newClientWithConfig_valid by blast
  have 2: "(\<exists>e. newClientWithConfig c0 = Inl e) \<longleftrightarrow> \<not> (\<exists>cf. c0 = Some cf \<and> validConfig cf)"
    using 1 by (cases "newClientWithConfig c0") auto
  have 3: "\<forall>c. newClientWithConfig c0 = Inr c \<longrightarrow> validConfig (cfg c)"
    using newClientWithConfig_Inr by blast
  have 4: "\<exists>c. NewClient = Some c \<and> validConfig (cfg c)"
    by (simp add: NewClient_def newClientWithConfig_def validClientConfig_def validRetry_def
        DefaultApiURL_def DefaultUserAgent_def DefaultMaxRetry_def DefaultRetryPause_def
        validConfig_def HasSuffix_def)
  have 5: "\<not> (0 \<le> a \<and> a \<le> 10 \<and> 1 \<le> p) \<longrightarrow> (\<exists>e. MaxRetry c a p = (Some e, c))"
    by (auto simp: MaxRetry_def validRetry_def)
  have 6: "0 \<le> a \<and> a \<le> 10 \<and> 1 \<le> p \<longrightarrow>
        MaxRetry c a p = (None, c\<lparr>cfg := (cfg c)\<lparr>maxRetry := a, maxRetryPause := p\<rparr>\<rparr>)"
    by (auto simp: MaxRetry_def validRetry_def)
  have 7: "validConfig (cfg c) \<longrightarrow>
        validConfig (cfg (snd (MaxRetry c a p))) \<and> validConfig (cfg (UserAgent c ua))"
    by (auto simp: MaxRetry_def validRetry_def validConfig_def UserAgent_def)
  show ?thesis using 1 2 3 4 5 6 7 by blast
qed

theorem live_client_config_valid_witness:
  "(\<exists>c. newClientWithConfig (Some (cfg exampleClient)) = Inr c \<and> validConfig (cfg c))
   \<and> (\<exists>e. newClientWithConfig (Some ((cfg exampleClient)\<lparr>maxRetry := 30\<rparr>)) = Inl e)
   \<and> (\<exists>e. MaxRetry exampleClient 3 0 = (Some e, exampleClient))
   \<and> validConfig (cfg (snd (MaxRetry exampleClient 10 1)))"
proof -
  have v: "validConfig (cfg exampleClient)"
    by (simp add: validConfig_def exampleClient_def DefaultApiURL_def)
  have n: "\<not> validConfig ((cfg exampleClient)\<lparr>maxRetry := 30\<rparr>)"
    by (simp add: validConfig_def)
  have r: "\<not> (0 \<le> (3::int) \<and> (3::int) \<le> 10 \<and> 1 \<le> (0::int))"
    by simp
  note t1 = live_client_config_valid [of "Some (cfg exampleClient)" 3 0 exampleClient]
  note t2 = live_client_config_valid
              [of "Some ((cfg exampleClient)\<lparr>maxRetry := 30\<rparr>)" 10 1 exampleClient]
  have a: "\<exists>c. newClientWithConfig (Some (cfg exampleClient)) = Inr c \<and> validConfig (cfg c)"
    using t1 v by blast
  have b: "\<exists>e. newClientWithConfig (Some ((cfg exampleClient)\<lparr>maxRetry := 30\<rparr>)) = Inl e"
    using t2 n by blast
  have c: "\<exists>e. MaxRetry exampleClient 3 0 = (Some e, exampleClient)"
    using t1 r by blast
  have d: "validConfig (cfg (snd (MaxRetry exampleClient 10 1)))"
    using t2 v by blast
  show ?thesis using a b c d by blast
qed

text \<open>The error of each kind of invalid configuration, in the order of the checks.\<close>

lemma newClientWithConfig_errors:
  "newClientWithConfig None = Inl (InvalidClientConfig ConfigNil)"
  "apiUrl cf = None \<Longrightarrow> newClientWithConfig (Some cf) = Inl (InvalidClientConfig NoApiUrl)"
  "apiUrl cf = Some u \<Longrightarrow> Host u = [] \<Longrightarrow>
     newClientWithConfig (Some cf) = Inl (InvalidClientConfig NoApiUrlHost)"
  "apiUrl cf = Some u \<Longrightarrow> Host u \<noteq> [] \<Longrightarrow> Scheme u = [] \<Longrightarrow>
     newClientWithConfig (Some cf) = Inl (InvalidClientConfig NoApiUrlScheme)"
  "apiUrl cf = Some u \<Longrightarrow> Host u \<noteq> [] \<Longrightarrow> Scheme u \<noteq> [] \<Longrightarrow>
     maxRetry cf < 0 \<or> maxRetry cf > 10 \<Longrightarrow>
     newClientWithConfig (Some cf) = Inl (InvalidClientConfig BadMaxRetry)"
  "apiUrl cf = Some u \<Longrightarrow> Host u \<noteq> [] \<Longrightarrow> Scheme u \<noteq> [] \<Longrightarrow>
     0 \<le> maxRetry cf \<Longrightarrow> maxRetry cf \<le> 10 \<Longrightarrow> maxRetryPause cf < 1 \<Longrightarrow>
     newClientWithConfig (Some cf) = Inl (InvalidClientConfig BadRetryPause)"
  by (auto simp: newClientWithConfig_def validClientConfig_def validRetry_def)

subsection \<open>Building a request\<close>

text \<open>
  Claim C4. A request that \<open>NewRequest\<close> returns is a GET without a body, for the URL
  parsed from the API URL followed by the path, in the background context when the caller
  gave none. Its header is empty: the user agent of the configuration is not attached.
\<close>

theorem NewRequest_no_user_agent:
  assumes "NewRequest url_Parse url_String c ctx path = Inr req"
  shows "Header req = [] \<and> Method req = ''GET'' \<and> Body req = None
       \<and> Ctx req = (case ctx of None \<Rightarrow> Background | Some x \<Rightarrow> x)
       \<and> (\<exists>u. url_Parse ((case apiUrl (cfg c) of None \<Rightarrow> url_String_nil
                                | Some b \<Rightarrow> url_String b) @ path) = Inr u
              \<and> URL req = u\<lparr>Host := removeEmptyPort (Host u)\<rparr>
              \<and> RequestHost req = removeEmptyPort (Host u))"
  using assms
  by (auto simp: NewRequest_def NewRequestWithContext_def Let_def split: sum.splits)

theorem NewRequest_no_user_agent_witness:
  "NewRequest exampleParse exampleString (UserAgent exampleClient ''Testing'') None ''locations''
     = Inr \<lparr>Method = ''GET'',
            URL = \<lparr>Scheme = ''https'', Host = ''transport.opendata.ch'', Path = ''/v1/locations''\<rparr>,
            RequestHost = ''transport.opendata.ch'', Header = [], Body = None, Ctx = Background\<rparr>"
proof -
  have "\<exists>req. NewRequest exampleParse exampleString (UserAgent exampleClient ''Testing'') None
                ''locations'' = Inr req"
    by (simp add: NewRequest_def NewRequestWithContext_def exampleParse_def exampleString_def
        exampleClient_def UserAgent_def DefaultApiURL_def)
  then obtain req where r: "NewRequest exampleParse exampleString
      (UserAgent exampleClient ''Testing'') None ''locations'' = Inr req" by blast
  show ?thesis
    using NewRequest_no_user_agent [OF r]
    by (simp add: NewRequest_def NewRequestWithContext_def exampleParse_def exampleString_def
        exampleClient_def UserAgent_def DefaultApiURL_def removeEmptyPort_def HasSuffix_def)
qed

text \<open>When the URL does not parse, \<open>NewRequest\<close> fails with the wrapped error of the parser.\<close>

lemma NewRequest_fails:
  "url_Parse ((case apiUrl (cfg c) of None \<Rightarrow> url_String_nil | Some b \<Rightarrow> url_String b) @ path) = Inl e
   \<Longrightarrow> NewRequest url_Parse url_String c ctx path = Inl (RequestCreationFailed e)"
  by (simp add: NewRequest_def NewRequestWithContext_def)


subsection \<open>Decimal digits\<close>

lemma digitVal_range: "isDigit c \<Longrightarrow> 0 \<le> digitVal c \<and> digitVal c \<le> 9"
  by (auto simp: isDigit_def digitVal_def)

lemma foldl_digits_ge:
  "list_all isDigit cs \<Longrightarrow> 0 \<le> n \<Longrightarrow> n \<le> foldl (\<lambda>n ch. n * 10 + digitVal ch) n cs"
proof (induction cs arbitrary: n)
  case Nil
  then show ?case by simp
next
  case (Cons c cs)
  then have d: "0 \<le> digitVal c" using digitVal_range by simp
  have "n \<le> n * 10 + digitVal c" using Cons.prems d by simp
  also have "\<dots> \<le> foldl (\<lambda>n ch. n * 10 + digitVal ch) (n * 10 + digitVal c) cs"
    using Cons d by simp
  finally show ?case by simp
qed

lemma foldl_digits_bound:
  "list_all isDigit cs \<Longrightarrow> 0 \<le> n \<Longrightarrow>
   foldl (\<lambda>n ch. n * 10 + digitVal ch) n cs < (n + 1) * 10 ^ length cs"
proof (induction cs arbitrary: n)
  case Nil
  then show ?case by simp
next
  case (Cons c cs)
  then have d: "0 \<le> digitVal c" "digitVal c \<le> 9" using digitVal_range by simp_all
  have "foldl (\<lambda>n ch. n * 10 + digitVal ch) (n * 10 + digitVal c) cs
          < (n * 10 + digitVal c + 1) * 10 ^ length cs"
    using Cons d by simp
  also have "\<dots> \<le> ((n + 1) * 10) * 10 ^ length cs"
    using d by (intro mult_right_mono) auto
  finally show ?case by (simp add: algebra_simps)
qed

lemma decimal_bound: "list_all isDigit ds \<Longrightarrow> 0 \<le> decimal ds \<and> decimal ds < 10 ^ length ds"
  using foldl_digits_bound [of ds 0] foldl_digits_ge [of ds 0] by (simp add: decimal_def)

lemma of_char_digitChar: "0 \<le> k \<Longrightarrow> k < 10 \<Longrightarrow> (of_char (digitChar k) :: int) = 48 + k"
  by (simp add: digitChar_def)

lemma isDigit_digitChar: "0 \<le> k \<Longrightarrow> k < 10 \<Longrightarrow> isDigit (digitChar k)"
  by (simp add: isDigit_def of_char_digitChar)

lemma digitVal_digitChar: "0 \<le> k \<Longrightarrow> k < 10 \<Longrightarrow> digitVal (digitChar k) = k"
  by (simp add: digitVal_def of_char_digitChar)

lemma digitChar_0: "digitChar 0 = CHR ''0''"
  by (simp add: digitChar_def char_of_eq_iff)

lemma decimal_Nil [simp]: "decimal [] = 0"
  by (simp add: decimal_def)

lemma decimal_snoc: "decimal (ds @ [c]) = decimal ds * 10 + digitVal c"
  by (simp add: decimal_def)

lemma decimal_Cons_0: "decimal (CHR ''0'' # ds) = decimal ds"
  by (simp add: decimal_def digitVal_def)

lemma decimal_replicate_0: "decimal (replicate k CHR ''0'' @ ds) = decimal ds"
  by (induction k) (simp_all add: decimal_Cons_0)

lemma decimal_append_zeros: "decimal (ds @ replicate k CHR ''0'') = decimal ds * 10 ^ k"
proof (induction k)
  case 0
  then show ?case by simp
next
  case (Suc k)
  have "decimal (ds @ replicate (Suc k) CHR ''0'')
          = decimal ((ds @ replicate k CHR ''0'') @ [CHR ''0''])"
    by (simp add: replicate_append_same)
  also have "\<dots> = decimal (ds @ replicate k CHR ''0'') * 10 + digitVal CHR ''0''"
    by (rule decimal_snoc)
  finally show ?case using Suc by (simp add: digitVal_def)
qed

lemma digits_props:
  "0 \<le> x \<Longrightarrow> list_all isDigit (digits x) \<and> decimal (digits x) = x \<and> digits x \<noteq> []"
proof (induction x rule: digits.induct)
  case (1 n)
  show ?case
  proof (cases "n < 10")
    case True
    then show ?thesis using 1(2)
      by (subst (1 2 3) digits.simps) (simp add: isDigit_digitChar decimal_def digitVal_digitChar)
  next
    case False
    then have ih: "list_all isDigit (digits (n div 10)) \<and> decimal (digits (n div 10)) = n div 10"
      using 1 by simp
    have m: "0 \<le> n mod 10" "n mod 10 < 10" by simp_all
    have "digits n = digits (n div 10) @ [digitChar (n mod 10)]"
      using False by (subst digits.simps) simp
    then show ?thesis using ih m
      by (simp add: decimal_snoc isDigit_digitChar digitVal_digitChar)
  qed
qed

lemma length_digits: "0 \<le> x \<Longrightarrow> x < 10 ^ k \<Longrightarrow> 0 < k \<Longrightarrow> length (digits x) \<le> k"
proof (induction x arbitrary: k rule: digits.induct)
  case (1 n)
  show ?case
  proof (cases "n < 10")
    case True
    then show ?thesis using 1(4) by (subst digits.simps) simp
  next
    case False
    then have k2: "1 < k" using 1(3) by (cases "k = 1") (use 1(4) in auto)
    then obtain j where j: "k = Suc j" "0 < j" by (cases k) auto
    have "\<And>m::int. n < 10 * m \<Longrightarrow> n div 10 < m" by presburger
    then have "n div 10 < 10 ^ j" using 1(3) j by simp
    then have "length (digits (n div 10)) \<le> j"
      using 1(1) [OF False, of j] 1(2) j by simp
    moreover have "digits n = digits (n div 10) @ [digitChar (n mod 10)]"
      using False by (subst digits.simps) simp
    ultimately show ?thesis using j by simp
  qed
qed

lemma appendInt_props:
  assumes "0 \<le> x" "x < 10 ^ w" "0 < w"
  shows "length (appendInt x w) = w" "list_all isDigit (appendInt x w)"
    "decimal (appendInt x w) = x"
proof -
  have l: "length (digits x) \<le> w" using assms by (rule length_digits)
  have z: "isDigit CHR ''0''" by (simp add: isDigit_def)
  show "length (appendInt x w) = w" using l assms(1) by (simp add: appendInt_def Let_def)
  show "list_all isDigit (appendInt x w)"
    using digits_props [OF assms(1)] assms(1) z by (auto simp: appendInt_def Let_def list_all_iff)
  show "decimal (appendInt x w) = x"
    using digits_props [OF assms(1)] assms(1)
    by (simp add: appendInt_def Let_def decimal_replicate_0)
qed


lemma isDigit_not_special:
  "isDigit c \<Longrightarrow> c \<noteq> CHR ''-'' \<and> c \<noteq> CHR ''+'' \<and> c \<noteq> CHR ''.'' \<and> c \<noteq> CHR ''Z'' \<and> c \<noteq> CHR 0x22
     \<and> \<not> isSign c"
  by (auto simp: isDigit_def isSign_def)

lemma two_digits:
  assumes "length ds = 2"
  obtains a b where "ds = [a, b]"
  using assms by (cases ds; cases "tl ds") auto

lemma getnum_two:
  assumes "length ds = 2" "list_all isDigit ds"
  shows "getnum (ds @ rest) fixed = Inr (decimal ds, rest)"
proof -
  obtain a b where ds: "ds = [a, b]" using assms(1) by (rule two_digits)
  show ?thesis using assms(2) by (simp add: ds getnum_def isDigitAt_def decimal_def)
qed

lemma getnum_appendInt:
  "0 \<le> x \<Longrightarrow> x < 100 \<Longrightarrow> getnum (appendInt x 2 @ rest) fixed = Inr (x, rest)"
  using appendInt_props [of x 2] getnum_two [of "appendInt x 2" rest fixed] by simp

lemma atoi_digits:
  assumes "list_all isDigit ds" "ds \<noteq> []" "length ds \<le> 18"
  shows "atoi ds = Inr (decimal ds)"
proof -
  have "isDigit (hd ds)" using assms(1,2) by (cases ds) auto
  then have ns: "\<not> isSign (hd ds)" "hd ds \<noteq> CHR ''-''" using isDigit_not_special by blast+
  have "decimal ds < 10 ^ length ds" using decimal_bound assms(1) by blast
  also have "(10::int) ^ length ds \<le> 10 ^ 18" using assms(3) by (intro power_increasing) auto
  finally have "\<not> decimal ds \<ge> 2 ^ 63" by simp
  then show ?thesis using ns assms(1) by (simp add: atoi_def Let_def)
qed

lemma skip_Cons: "skip (c # rest) c = Inr rest"
  by (simp add: skip_def)


lemma year_prefix:
  assumes "0 \<le> y" "y < 10000"
  shows "length (appendInt y 4 @ rest) \<ge> 4 \<and> isDigitAt (appendInt y 4 @ rest) 0
       \<and> atoi (take 4 (appendInt y 4 @ rest)) = Inr y
       \<and> drop 4 (appendInt y 4 @ rest) = rest"
proof -
  have p: "length (appendInt y 4) = 4" "list_all isDigit (appendInt y 4)"
    "decimal (appendInt y 4) = y"
    using appendInt_props [of y 4] assms by simp_all
  then have ne: "appendInt y 4 \<noteq> []" by auto
  have "isDigit (hd (appendInt y 4))" using p(2) ne by (cases "appendInt y 4") auto
  then have d0: "isDigitAt (appendInt y 4 @ rest) 0"
    using ne by (cases "appendInt y 4") (auto simp: isDigitAt_def)
  have "atoi (appendInt y 4) = Inr y"
    using atoi_digits [of "appendInt y 4"] p ne by simp
  then show ?thesis using p(1) d0 by simp
qed

subsection \<open>The stationboard path\<close>

lemma ParseUint_loop_Inr:
  "0 \<le> n \<Longrightarrow> n \<le> 2 ^ 64 - 1 \<Longrightarrow>
   ParseUint_loop n cs = Inr m \<longleftrightarrow>
     list_all isDigit cs \<and> m = foldl (\<lambda>n ch. n * 10 + digitVal ch) n cs \<and> m \<le> 2 ^ 64 - 1"
proof (induction cs arbitrary: n)
  case Nil
  then show ?case by auto
next
  case (Cons c cs)
  show ?case
  proof (cases "isDigit c")
    case False
    then show ?thesis by (simp add: ErrSyntax_def)
  next
    case True
    then have d: "0 \<le> digitVal c" "digitVal c \<le> 9" using digitVal_range by simp_all
    let ?n' = "n * 10 + digitVal c"
    have n': "0 \<le> ?n'" using Cons.prems d by simp
    show ?thesis
    proof (cases "?n' > 2 ^ 64 - 1")
      case big: True
      have "list_all isDigit cs \<Longrightarrow> foldl (\<lambda>n ch. n * 10 + digitVal ch) ?n' cs > 2 ^ 64 - 1"
        using foldl_digits_ge [of cs ?n'] n' big by linarith
      then show ?thesis using True big by (auto simp: ErrRange_def)
    next
      case small: False
      then have "\<not> n \<ge> (2 ^ 64 - 1) div 10 + 1" using d by simp
      then show ?thesis
        using True small Cons.IH [OF n'] by simp
    qed
  qed
qed


lemma ParseUint_Inr:
  "ParseUint s = Inr m \<longleftrightarrow> s \<noteq> [] \<and> list_all isDigit s \<and> m = decimal s \<and> m \<le> 2 ^ 64 - 1"
  using ParseUint_loop_Inr [of 0 s m] by (auto simp: ParseUint_def decimal_def)

lemma ParseInt_ok:
  "(\<exists>n. ParseInt s = Inr n) \<longleftrightarrow> isDecimalInt s"
proof (cases "s = []")
  case True
  then show ?thesis by (simp add: ParseInt_def isDecimalInt_def)
next
  case False
  let ?ds = "if isSign (hd s) then tl s else s"
  show ?thesis
  proof (cases "ParseUint ?ds")
    case (Inl e)
    then have "\<not> (?ds \<noteq> [] \<and> list_all isDigit ?ds \<and> decimal ?ds \<le> 2 ^ 64 - 1)"
      using ParseUint_Inr [of ?ds "decimal ?ds"] by auto
    then show ?thesis using Inl False
      by (auto simp: ParseInt_def isDecimalInt_def Let_def)
  next
    case (Inr un)
    then have "?ds \<noteq> [] \<and> list_all isDigit ?ds \<and> un = decimal ?ds"
      using ParseUint_Inr [of ?ds un] by simp
    then show ?thesis using Inr False
      by (auto simp: ParseInt_def isDecimalInt_def Let_def isSign_def)
  qed
qed

lemma Atoi_ok:
  "(\<exists>n. Atoi s = Inr n) \<longleftrightarrow> isDecimalInt s"
proof (cases "0 < length s \<and> length s < 19")
  case False
  then have "Atoi s = ParseInt s" unfolding Atoi_def by (rule if_not_P)
  then show ?thesis using ParseInt_ok [of s] by simp
next
  case True
  let ?ds = "if isSign (hd s) then tl s else s"
  have len: "length ?ds \<le> 18" using True by auto
  have b: "list_all isDigit ?ds \<Longrightarrow> decimal ?ds < 2 ^ 63"
  proof -
    assume "list_all isDigit ?ds"
    then have "decimal ?ds < 10 ^ length ?ds" using decimal_bound by blast
    also have "(10::int) ^ length ?ds \<le> 10 ^ 18"
      using len by (intro power_increasing) auto
    finally show ?thesis by simp
  qed
  have ne: "s \<noteq> []" using True by auto
  show ?thesis
    using True b ne
    by (auto simp: Atoi_def isDecimalInt_def Let_def ErrSyntax_def)
qed

lemma isId_iff: "isId v \<longleftrightarrow> 5 < length v \<and> isDecimalInt v"
  using Atoi_ok [of v] by (auto simp: isId_def split: sum.splits)


lemma buildUrlPath_example_id: "buildUrlPath ''8591382'' exampleOpts =
      Inr ''stationboard?id=8591382&limit=3&type=departure&datetime=2020-05-02%2002:00&transportations[]=tram''"
  by code_simp

lemma buildUrlPath_example_station: "buildUrlPath ''Bern'' exampleOpts =
      Inr ''stationboard?station=Bern&limit=3&type=departure&datetime=2020-05-02%2002:00&transportations[]=tram''"
  by code_simp

lemma isDecimalInt_example: "isDecimalInt ''8591382''" by code_simp

text \<open>
  Claim C10. For a name that is not empty, a path that \<open>buildUrlPath\<close> returns starts with
  \<^verbatim>\<open>stationboard?\<close> and the key \<^verbatim>\<open>id\<close> when the name has more than five bytes and is a decimal
  integer that \<^verbatim>\<open>strconv.Atoi\<close> accepts (a sign at most, digits, within 64 bits), and the key
  \<^verbatim>\<open>station\<close> otherwise. The rest of the path (the escaped name, the limit, the type, the
  date and the transportations) is the same for both keys.
\<close>

theorem buildUrlPath_station_key:
  assumes "name \<noteq> []" and "buildUrlPath name opts = Inr path"
  shows "\<exists>date transportations.
           formatDate (DateTime opts) = Inr date
         \<and> convListParam (convSlice (Transportations opts)) ''transportations'' = Inr transportations
         \<and> path = ''stationboard?''
                  @ (if 5 < length name \<and> isDecimalInt name then ''id'' else ''station'')
                  @ ''='' @ PathEscape name
                  @ ''&limit='' @ formatInt (Limit opts)
                  @ ''&type='' @ PathEscape (if Arrival opts then ''arrival'' else ''departure'')
                  @ ''&datetime='' @ PathEscape date @ transportations"
  using assms
  by (auto simp: buildUrlPath_def isId_iff Let_def split: sum.splits if_splits)

theorem buildUrlPath_station_key_witness:
  "buildUrlPath ''8591382'' exampleOpts =
      Inr ''stationboard?id=8591382&limit=3&type=departure&datetime=2020-05-02%2002:00&transportations[]=tram''
   \<and> isDecimalInt ''8591382''
   \<and> buildUrlPath ''Bern'' exampleOpts =
      Inr ''stationboard?station=Bern&limit=3&type=departure&datetime=2020-05-02%2002:00&transportations[]=tram''"
proof -
  have n1: "''8591382'' \<noteq> []" and n2: "''Bern'' \<noteq> []" by simp_all
  note t1 = buildUrlPath_station_key [OF n1 buildUrlPath_example_id]
  note t2 = buildUrlPath_station_key [OF n2 buildUrlPath_example_station]
  show ?thesis using t1 t2 buildUrlPath_example_id buildUrlPath_example_station isDecimalInt_example by simp
qed

subsection \<open>The response decoders\<close>

text \<open>
  What the three decoders share: each fails on zero bytes with the error of the empty
  buffer, whatever the JSON decoder would do; on other bytes that the JSON decoder
  accepts, each returns the decoded value and no error.
\<close>

lemma parseResponse_empty:
  "LocationService_parseResponse unmarshal [] = (None, Some ResponseBufferEmpty)"
  "ConnectionService_parseResponse unmarshal [] = (None, Some ResponseBufferEmpty)"
  "StationboardService_parseResponse unmarshal [] = (None, Some ResponseBufferEmpty)"
  by (simp_all add: LocationService_parseResponse_def ConnectionService_parseResponse_def
      StationboardService_parseResponse_def)

lemma parseResponse_decoded:
  assumes "raw \<noteq> []" and "unmarshal raw = (None, v)"
  shows "LocationService_parseResponse unmarshal raw = (Some v, None)"
    and "ConnectionService_parseResponse unmarshal raw = (Some v, None)"
    and "StationboardService_parseResponse unmarshal raw = (Some v, None)"
  using assms
  by (simp_all add: LocationService_parseResponse_def ConnectionService_parseResponse_def
      StationboardService_parseResponse_def)

text \<open>
  Claim C8. On bytes that are not empty and that the JSON decoder rejects, the decoders of
  the connections and of the stationboard return no result and the decoder's error
  wrapped, as the claim says. The decoder of the locations does not: it returns the
  decoder's error as it is, not wrapped, next to a result.
\<close>

theorem LocationService_parseResponse_not_wrapped:
  assumes "raw \<noteq> []" and "unmarshal raw = (Some e, v)"
  shows "LocationService_parseResponse unmarshal raw = (Some v, Some e)
       \<and> ConnectionService_parseResponse unmarshal raw = (None, Some (ParseResponseFailed e))
       \<and> StationboardService_parseResponse unmarshal raw = (None, Some (ParseResponseFailed e))"
  using assms
  by (simp add: LocationService_parseResponse_def ConnectionService_parseResponse_def
      StationboardService_parseResponse_def)

theorem LocationService_parseResponse_unwrapped:
  "LocationService_parseResponse (exampleUnmarshal ([]::string list)) ''{Invalid: Json}''
     = (Some [], Some (Lib ''invalid character''))
   \<and> snd (LocationService_parseResponse (exampleUnmarshal ([]::string list)) ''{Invalid: Json}'')
     \<noteq> Some (ParseResponseFailed (Lib ''invalid character''))
   \<and> ConnectionService_parseResponse (exampleUnmarshal ([]::string list)) ''{Invalid: Json}''
     = (None, Some (ParseResponseFailed (Lib ''invalid character'')))
   \<and> StationboardService_parseResponse (exampleUnmarshal ([]::string list)) ''{Invalid: Json}''
     = (None, Some (ParseResponseFailed (Lib ''invalid character'')))"
proof -
  have a: "''{Invalid: Json}'' \<noteq> []" by simp
  have b: "exampleUnmarshal ([]::string list) ''{Invalid: Json}''
             = (Some (Lib ''invalid character''), [])"
    by (simp add: exampleUnmarshal_def)
  show ?thesis
    using LocationService_parseResponse_not_wrapped
            [of "''{Invalid: Json}''" "exampleUnmarshal ([]::string list)"
                "Lib ''invalid character''" "[]", OF a b]
    by simp
qed

subsection \<open>The isoDate codec\<close>

lemma parseSeconds_plain:
  assumes "0 \<le> s" "s < 60"
    and "\<not> (length rest \<ge> 2 \<and> rest ! 0 = CHR ''.'' \<and> isDigitAt rest 1)"
  shows "parseSeconds (appendInt s 2 @ rest) = Inr (s, 0, rest)"
proof -
  have g: "getnum (appendInt s 2 @ rest) True = Inr (s, rest)"
    using assms(1,2) by (simp add: getnum_appendInt)
  show ?thesis
    unfolding parseSeconds_def g using assms
    apply (simp only: Let_def prod.case sum.case if_False option.case simp_thms)
    apply simp
    done
qed

lemma trailing_zeros:
  "\<exists>z. buf = rev (dropWhile (\<lambda>c. c = CHR ''0'') (rev buf)) @ replicate z CHR ''0''"
proof -
  let ?t = "takeWhile (\<lambda>c. c = CHR ''0'') (rev buf)"
  let ?d = "dropWhile (\<lambda>c. c = CHR ''0'') (rev buf)"
  have "\<forall>y\<in>set ?t. y = CHR ''0''" by (auto dest: set_takeWhileD)
  then have t: "replicate (length ?t) CHR ''0'' = ?t" by (rule replicate_length_same)
  have "rev ?d @ rev ?t = buf"
    by (metis rev_append rev_rev_ident takeWhile_dropWhile_id)
  moreover have "rev ?t = replicate (length ?t) CHR ''0''" using t by (metis rev_replicate)
  ultimately have "buf = rev ?d @ replicate (length ?t) CHR ''0''" by simp
  then show ?thesis by blast
qed

lemma formatNano_cases:
  assumes "0 \<le> ns" "ns < 1000000000"
  shows "(formatNano ns = [] \<and> ns = 0)
       \<or> (\<exists>kept. formatNano ns = CHR ''.'' # kept \<and> kept \<noteq> [] \<and> list_all isDigit kept
               \<and> length kept \<le> 9 \<and> decimal kept * 10 ^ (9 - length kept) = ns)"
proof -
  define buf where "buf = appendInt ns 9"
  define kept where "kept = rev (dropWhile (\<lambda>c. c = CHR ''0'') (rev buf))"
  have m: "ns mod 1000000000 = ns" using assms by simp
  have p: "length buf = 9" "list_all isDigit buf" "decimal buf = ns"
    using appendInt_props [of ns 9] assms by (simp_all add: buf_def)
  obtain z where z: "buf = kept @ replicate z CHR ''0''"
    using trailing_zeros [of buf] unfolding kept_def by blast
  have lz: "length kept + z = 9" using p(1) unfolding z by simp
  have dk: "list_all isDigit kept" using p(2) unfolding z by simp
  have "decimal kept * 10 ^ z = ns"
    using p(3) unfolding z by (simp add: decimal_append_zeros)
  moreover have "z = 9 - length kept" using lz by simp
  ultimately have val: "decimal kept * 10 ^ (9 - length kept) = ns" by simp
  have f: "formatNano ns = (if kept = [] then [] else CHR ''.'' # kept)"
    unfolding formatNano_def Let_def m kept_def buf_def by (rule refl)
  show ?thesis
  proof (cases "kept = []")
    case True
    then have "ns = 0" using val by simp
    then show ?thesis using True f by simp
  next
    case False
    then show ?thesis using f dk lz val by auto
  qed
qed

lemma takeWhile_digits:
  "list_all isDigit ds \<Longrightarrow> \<not> isDigit c \<Longrightarrow> takeWhile isDigit (ds @ c # r) = ds"
  by (induction ds) auto

lemma parseSeconds_formatNano:
  assumes "0 \<le> s" "s < 60" "0 \<le> ns" "ns < 1000000000"
    and "\<not> isDigit c" "c \<noteq> CHR ''.''"
  shows "parseSeconds (appendInt s 2 @ formatNano ns @ c # r) = Inr (s, ns, c # r)"
proof -
  from formatNano_cases [OF assms(3,4)] show ?thesis
  proof (elim disjE conjE exE)
    assume "formatNano ns = []" "ns = 0"
    then show ?thesis
      using parseSeconds_plain [OF assms(1,2), of "c # r"] assms(6) by simp
  next
    fix kept
    assume k: "formatNano ns = CHR ''.'' # kept" "kept \<noteq> []" "list_all isDigit kept"
      "length kept \<le> 9" "decimal kept * 10 ^ (9 - length kept) = ns"
    have a: "atoi kept = Inr (decimal kept)" using atoi_digits [of kept] k by simp
    have d0: "0 \<le> decimal kept" using decimal_bound k(3) by blast
    have "decimal kept * 1 \<le> decimal kept * 10 ^ (9 - length kept)"
      using d0 by (intro mult_left_mono) auto
    then have d1: "decimal kept < 1000000000" using k(5) assms(4) by simp
    have h: "isDigit (hd kept)" using k(2,3) by (cases kept) auto
    then have h1: "isDigitAt (CHR ''.'' # kept @ c # r) 1"
      using k(2) by (cases kept) (auto simp: isDigitAt_def)
    have tw: "takeWhile isDigit (kept @ c # r) = kept"
      using takeWhile_digits k(3) assms(5) by blast
    have pn: "parseNanoseconds (CHR ''.'' # kept @ c # r) = Inr (ns, c # r)"
      using a d0 d1 k(5) by (simp add: parseNanoseconds_def Let_def tw)
    show ?thesis
      using assms(1,2) h1 pn k(2)
      by (simp add: parseSeconds_def getnum_appendInt k(1))
  qed
qed

lemma parseZone_Z: "parseZone ''Z'' = Inr (0, [])"
  by (simp add: parseZone_def)

lemma offset_value:
  fixes a :: int
  assumes "a mod 60 = 0"
  shows "(a div 3600 * 60 + a div 60 mod 60) * 60 = a"
proof -
  have "a div 3600 = a div 60 div 60" by (simp add: zdiv_zmult2_eq)
  then have "a div 3600 * 60 + a div 60 mod 60 = a div 60" by simp
  then show ?thesis using assms by (metis mult.commute mult_div_mod_eq add.right_neutral)
qed


lemma parseZone_signed:
  assumes "length hs = 2" "list_all isDigit hs" "length ms = 2" "list_all isDigit ms"
    and "sg = CHR ''+'' \<or> sg = CHR ''-''"
  shows "parseZone (sg # hs @ ms) =
           Inr ((if sg = CHR ''+'' then 1 else - 1) * ((decimal hs * 60 + decimal ms) * 60), [])"
proof -
  obtain a b where hs: "hs = [a, b]" using assms(1) by (rule two_digits)
  obtain c d where ms: "ms = [c, d]" using assms(3) by (rule two_digits)
  have ah: "atoi [a, b] = Inr (decimal [a, b])"
    using atoi_digits [of hs] assms(2) hs by simp
  have am: "atoi [c, d] = Inr (decimal [c, d])"
    using atoi_digits [of ms] assms(4) ms by simp
  have nz: "sg \<noteq> CHR ''Z''" using assms(5) by auto
  show ?thesis
    using assms(5) nz ah am by (auto simp: parseZone_def hs ms)
qed

lemma parseZone_offsetText:
  assumes "off mod 60 = 0" "\<bar>off\<bar> < 360000"
  shows "parseZone (offsetText off) = Inr (off, [])"
proof -
  define hh where "hh = \<bar>off\<bar> div 3600"
  define mm where "mm = \<bar>off\<bar> div 60 mod 60"
  have r: "0 \<le> hh" "hh < 100" "0 \<le> mm" "mm < 100"
    using assms(2) by (auto simp: hh_def mm_def)
  have ph: "length (appendInt hh 2) = 2" "list_all isDigit (appendInt hh 2)"
    "decimal (appendInt hh 2) = hh"
    using appendInt_props [of hh 2] r by simp_all
  have pm: "length (appendInt mm 2) = 2" "list_all isDigit (appendInt mm 2)"
    "decimal (appendInt mm 2) = mm"
    using appendInt_props [of mm 2] r by simp_all
  have "\<bar>off\<bar> mod 60 = 0" using assms(1) by (cases "off < 0") (auto simp: zmod_zminus1_eq_if)
  then have val: "(hh * 60 + mm) * 60 = \<bar>off\<bar>"
    unfolding hh_def mm_def by (rule offset_value)
  have t: "offsetText off = (if off < 0 then CHR ''-'' else CHR ''+'') # appendInt hh 2 @ appendInt mm 2"
    by (simp add: offsetText_def hh_def mm_def)
  show ?thesis
    unfolding t
    by (subst parseZone_signed [OF ph(1,2) pm(1,2)]) (use val in \<open>auto simp: ph(3) pm(3)\<close>)
qed

lemma time_Parse_clock_general:
  assumes "0 \<le> year t" "year t < 10000" "validTime t"
  shows "time_Parse (clockText t @ rest) =
           orReturn (parseSeconds (appendInt (second t) 2 @ rest)) (\<lambda>(sec, ns, v11).
           orReturn (parseZone v11) (\<lambda>(off, v12).
           orReturn (check (length v12 = 0)) (\<lambda>_.
             Inr \<lparr>year = year t, month = month t, day = day t, hour = hour t,
                  minute = minute t, second = sec, nsec = ns, zoneOffset = off\<rparr>)))"
proof -
  note y = year_prefix [OF assms(1,2)]
  have v: "1 \<le> month t" "month t \<le> 12" "1 \<le> day t" "day t \<le> daysIn (month t) (year t)"
      "0 \<le> hour t" "hour t < 24" "0 \<le> minute t" "minute t < 60"
    using assms(3) by (simp_all add: validTime_def)
  have d31: "daysIn (month t) (year t) \<le> 31"
  proof -
    have "month t \<in> {1,2,3,4,5,6,7,8,9,10,11,12}" using v(1,2) by (simp; presburger)
    then show ?thesis by (auto simp: daysIn_def)
  qed
  have g: "\<And>r f. getnum (appendInt (month t) 2 @ r) f = Inr (month t, r)"
    "\<And>r f. getnum (appendInt (day t) 2 @ r) f = Inr (day t, r)"
    "\<And>r f. getnum (appendInt (hour t) 2 @ r) f = Inr (hour t, r)"
    "\<And>r f. getnum (appendInt (minute t) 2 @ r) f = Inr (minute t, r)"
    using v d31 by (simp_all add: getnum_appendInt)
  have c: "check (\<not> (day t < 1 \<or> daysIn (month t) (year t) < day t)) = Inr ()"
    using v by (simp add: check_def)
  show ?thesis
    using v
    by (simp add: time_Parse_def clockText_def orReturn_def check_def y g skip_Cons
          split: sum.splits prod.splits
          del: take_append drop_append)
qed


lemma plainChar_simps [simp]:
  "isDigit c \<Longrightarrow> plainChar c"
  "plainChar CHR ''-''" "plainChar CHR ''+''" "plainChar CHR '':''" "plainChar CHR ''.''"
  "plainChar CHR ''T''" "plainChar CHR ''Z''"
  "\<not> plainChar CHR ''n''" "\<not> plainChar CHR 0x22"
  by (simp_all add: plainChar_def isDigit_def)

lemma HasPrefix_set: "HasPrefix s sub \<Longrightarrow> set sub \<subseteq> set s"
  unfolding HasPrefix_def by (metis set_take_subset)

lemma Contains_set: "Contains s sub \<Longrightarrow> set sub \<subseteq> set s"
proof (induction s)
  case Nil
  then have "HasPrefix [] sub" by simp
  then show ?case by (rule HasPrefix_set)
next
  case (Cons a s)
  from Cons.prems have "HasPrefix (a # s) sub \<or> Contains s sub" by simp
  then show ?case
  proof
    assume "HasPrefix (a # s) sub"
    then show ?thesis by (rule HasPrefix_set)
  next
    assume "Contains s sub"
    then have "set sub \<subseteq> set s" by (rule Cons.IH)
    then show ?thesis by auto
  qed
qed

lemma Trim_quoted:
  assumes "s \<noteq> []" "hd s \<noteq> q" "last s \<noteq> q"
  shows "Trim (q # s @ [q]) [q] = s"
proof -
  have a: "dropWhile (\<lambda>c. c \<in> set [q]) (q # s @ [q]) = s @ [q]"
    using assms(1,2) by (cases s) auto
  have b: "dropWhile (\<lambda>c. c \<in> set [q]) (rev (s @ [q])) = rev s"
    using assms(1,3) by (cases s rule: rev_cases) auto
  show ?thesis unfolding Trim_def a b by simp
qed

lemma UnmarshalJSON_quoted:
  assumes "list_all plainChar s" "s \<noteq> []"
  shows "UnmarshalJSON d (CHR 0x22 # s @ [CHR 0x22]) =
           (case time_Parse s of Inl e \<Rightarrow> (Some e, d) | Inr t \<Rightarrow> (None, d\<lparr>Time := t\<rparr>))"
proof -
  have h: "plainChar (hd s)" "plainChar (last s)"
    using assms by (auto simp: list_all_iff)
  then have q: "hd s \<noteq> CHR 0x22" "last s \<noteq> CHR 0x22" by auto
  have "CHR ''n'' \<notin> set (CHR 0x22 # s @ [CHR 0x22])"
    using assms(1) by (auto simp: list_all_iff)
  then have n: "\<not> Contains (CHR 0x22 # s @ [CHR 0x22]) ''null''"
    using Contains_set by fastforce
  have t: "Trim (CHR 0x22 # s @ [CHR 0x22]) [CHR 0x22] = s"
    using assms(2) q by (rule Trim_quoted)
  show ?thesis unfolding UnmarshalJSON_def t using n by simp
qed

lemma appendInt_digits: "0 \<le> x \<Longrightarrow> list_all isDigit (appendInt x w)"
  using digits_props [of x] by (auto simp: appendInt_def Let_def list_all_iff isDigit_def)

lemma appendInt_plain: "0 \<le> x \<Longrightarrow> list_all plainChar (appendInt x w)"
  using appendInt_digits [of x w] by (auto simp: list_all_iff)

lemma appendInt_ne: "appendInt x w \<noteq> []"
proof -
  have "digits \<bar>x\<bar> \<noteq> []" using digits_props [of "\<bar>x\<bar>"] by simp
  then show ?thesis by (simp add: appendInt_def Let_def)
qed

lemma clockText_plain:
  assumes "0 \<le> year t" "validTime t"
  shows "list_all plainChar (clockText t)" "clockText t \<noteq> []"
proof -
  have "0 \<le> month t" "0 \<le> day t" "0 \<le> hour t" "0 \<le> minute t" "0 \<le> second t"
    using assms(2) by (simp_all add: validTime_def)
  then show "list_all plainChar (clockText t)"
    using assms(1) by (simp add: clockText_def appendInt_plain)
  show "clockText t \<noteq> []" by (simp add: clockText_def appendInt_ne)
qed

lemma offsetText_plain: "list_all plainChar (offsetText off)"
  by (simp add: offsetText_def appendInt_plain)

lemma offsetText_Cons: "\<exists>sg r. offsetText off = sg # r \<and> (sg = CHR ''+'' \<or> sg = CHR ''-'')"
  by (simp add: offsetText_def)

lemma UnmarshalJSON_pattern:
  assumes "0 \<le> year t" "year t < 10000" "validTime t" "nsec t = 0"
    and "zoneOffset t mod 60 = 0" "\<bar>zoneOffset t\<bar> < 86400"
  shows "UnmarshalJSON d ([CHR 0x22] @ patternText t @ [CHR 0x22]) = (None, d\<lparr>Time := t\<rparr>)"
proof -
  obtain sg r where sg: "offsetText (zoneOffset t) = sg # r" "sg = CHR ''+'' \<or> sg = CHR ''-''"
    using offsetText_Cons by blast
  have s: "0 \<le> second t" "second t < 60" using assms(3) by (simp_all add: validTime_def)
  have ps: "parseSeconds (appendInt (second t) 2 @ offsetText (zoneOffset t))
              = Inr (second t, 0, offsetText (zoneOffset t))"
    using sg by (intro parseSeconds_plain [OF s]) auto
  have pz: "parseZone (offsetText (zoneOffset t)) = Inr (zoneOffset t, [])"
    using assms(5,6) by (intro parseZone_offsetText) auto
  have "time_Parse (patternText t) = Inr (t\<lparr>nsec := 0, zoneOffset := zoneOffset t\<rparr>)"
    unfolding patternText_def time_Parse_clock_general [OF assms(1,2,3)] ps
    by (simp add: orReturn_def pz check_def)
  then have tp: "time_Parse (patternText t) = Inr t" using assms(4) by simp
  have pl: "list_all plainChar (patternText t)" "patternText t \<noteq> []"
    using clockText_plain [OF assms(1,3)] offsetText_plain by (simp_all add: patternText_def)
  show ?thesis using UnmarshalJSON_quoted [OF pl, of d] tp by simp
qed

text \<open>
  What holds of the decoder: the token \<^verbatim>\<open>null\<close> and zero bytes decode without an error and
  leave the receiver as it is (the zero time in a fresh value), and a quoted time of the
  pattern \<^verbatim>\<open>YYYY-MM-DDTHH:MM:SS\<close> with an offset of a sign and \<^verbatim>\<open>HHMM\<close> decodes to that time
  (\<open>UnmarshalJSON_pattern\<close>).
\<close>

lemma UnmarshalJSON_absent:
  "UnmarshalJSON d ''null'' = (None, d)"
  "UnmarshalJSON d [] = (None, d)"
  by (simp_all add: UnmarshalJSON_def HasPrefix_def)

lemma UnmarshalJSON_pattern_example:
  "UnmarshalJSON \<lparr>Time = zeroTime\<rparr> ([CHR 0x22] @ ''2020-05-02T20:00:00+0200'' @ [CHR 0x22])
     = (None, \<lparr>Time = exampleTime\<rparr>)"
proof -
  have h: "0 \<le> year exampleTime" "year exampleTime < 10000" "validTime exampleTime"
    "nsec exampleTime = 0" "zoneOffset exampleTime mod 60 = 0"
    "\<bar>zoneOffset exampleTime\<bar> < 86400"
    by code_simp+
  have p: "patternText exampleTime = ''2020-05-02T20:00:00+0200''" by code_simp
  show ?thesis
    using UnmarshalJSON_pattern [OF h, of "\<lparr>Time = zeroTime\<rparr>"] unfolding p by simp
qed

text \<open>
  Claim C3. The decoder breaks the claim at two inputs. A quoted string that is not of the
  pattern but contains the bytes \<^verbatim>\<open>null\<close> decodes without an error, as the token \<^verbatim>\<open>null\<close>
  does: the test is for a substring. The empty string of JSON, two quotes, does not decode
  to the absent value but fails with the error of \<^verbatim>\<open>time.Parse\<close>: the length is tested
  before the quotes are removed.
\<close>

theorem UnmarshalJSON_slips:
  "UnmarshalJSON \<lparr>Time = zeroTime\<rparr> ([CHR 0x22] @ ''nullable'' @ [CHR 0x22])
     = (None, \<lparr>Time = zeroTime\<rparr>)
   \<and> UnmarshalJSON \<lparr>Time = zeroTime\<rparr> [CHR 0x22, CHR 0x22]
     = (Some ParseTimeError, \<lparr>Time = zeroTime\<rparr>)"
  by code_simp

text \<open>\<^verbatim>\<open>time.Parse\<close> also accepts \<^verbatim>\<open>Z\<close> in place of the offset.\<close>

lemma UnmarshalJSON_accepts_Z:
  "UnmarshalJSON \<lparr>Time = zeroTime\<rparr> ([CHR 0x22] @ ''2020-05-02T20:00:00Z'' @ [CHR 0x22])
     = (None, \<lparr>Time = exampleTime\<lparr>zoneOffset := 0\<rparr>\<rparr>)"
  by code_simp

lemma MarshalJSON_text:
  assumes "0 \<le> year t" "year t < 10000"
  shows "MarshalJSON \<lparr>Time = t\<rparr> =
           Inr (CHR 0x22 # (clockText t @ formatNano (nsec t) @ formatZone (zoneOffset t))
                @ [CHR 0x22])"
  using assms by (simp add: MarshalJSON_def clockText_def)

lemma formatNano_plain:
  assumes "0 \<le> ns" "ns < 1000000000"
  shows "list_all plainChar (formatNano ns)"
  using formatNano_cases [OF assms] by (auto simp: list_all_iff)

lemma formatZone_colon:
  assumes "off \<noteq> 0" "\<bar>off\<bar> < 360000"
  shows "\<exists>sg hs ms. formatZone off = sg # hs @ CHR '':'' # ms
           \<and> (sg = CHR ''+'' \<or> sg = CHR ''-'')
           \<and> length hs = 2 \<and> list_all isDigit hs \<and> length ms = 2 \<and> list_all isDigit ms"
proof -
  define zone where "zone = (if off < 0 then (- off) div 60 else off div 60)"
  have z: "0 \<le> zone" "zone < 6000" using assms(2) by (auto simp: zone_def)
  have r: "0 \<le> zone div 60" "zone div 60 < 10 ^ 2" "0 \<le> zone mod 60" "zone mod 60 < 10 ^ 2"
    using z by auto
  note ph = appendInt_props [OF r(1,2)] and pm = appendInt_props [OF r(3,4)]
  have f: "formatZone off =
             (if off < 0 \<and> zone \<noteq> 0 then CHR ''-'' else CHR ''+'')
             # appendInt (zone div 60) 2 @ CHR '':'' # appendInt (zone mod 60) 2"
    using assms(1) z by (auto simp: formatZone_def zone_def Let_def)
  show ?thesis using ph pm unfolding f by auto
qed

lemma formatZone_plain: "\<bar>off\<bar> < 360000 \<Longrightarrow> list_all plainChar (formatZone off)"
proof (cases "off = 0")
  case True
  then show ?thesis by (simp add: formatZone_def)
next
  case False
  assume "\<bar>off\<bar> < 360000"
  with False obtain sg hs ms where "formatZone off = sg # hs @ CHR '':'' # ms"
    "sg = CHR ''+'' \<or> sg = CHR ''-''" "list_all isDigit hs" "list_all isDigit ms"
    using formatZone_colon by blast
  then show ?thesis by (auto simp: list_all_iff)
qed

lemma atoi_colon: "atoi [CHR '':'', c] = Inl ParseTimeError"
  by (simp add: atoi_def isSign_def isDigit_def)

lemma parseZone_colon:
  assumes "length hs = 2" "list_all isDigit hs" "length ms = 2"
    and "sg = CHR ''+'' \<or> sg = CHR ''-''"
  shows "parseZone (sg # hs @ CHR '':'' # ms) = Inl ParseTimeError"
proof -
  obtain a b where hs: "hs = [a, b]" using assms(1) by (rule two_digits)
  obtain c e where ms: "ms = [c, e]" using assms(3) by (rule two_digits)
  have nz: "sg \<noteq> CHR ''Z''" using assms(4) by auto
  have ah: "atoi [a, b] = Inr (decimal [a, b])"
    using atoi_digits [of hs] assms(2) hs by simp
  show ?thesis using nz by (simp add: parseZone_def hs ms atoi_colon ah)
qed

text \<open>
  Claim C9, amended. A time of a year from 0 to 9999 has an encoding. When its offset is
  zero, decoding the encoding gives the time back. When its offset is not zero (and below
  100 hours), the encoding writes the offset with a colon and decoding it fails.
\<close>

theorem MarshalJSON_UnmarshalJSON:
  assumes "0 \<le> year t" "year t < 10000" "validTime t"
  shows "\<exists>raw. MarshalJSON \<lparr>Time = t\<rparr> = Inr raw
           \<and> (zoneOffset t = 0 \<longrightarrow> UnmarshalJSON d raw = (None, d\<lparr>Time := t\<rparr>))
           \<and> (zoneOffset t \<noteq> 0 \<and> \<bar>zoneOffset t\<bar> < 360000 \<longrightarrow>
                UnmarshalJSON d raw = (Some ParseTimeError, d))"
proof -
  let ?inner = "clockText t @ formatNano (nsec t) @ formatZone (zoneOffset t)"
  let ?raw = "CHR 0x22 # ?inner @ [CHR 0x22]"
  have v: "0 \<le> second t" "second t < 60" "0 \<le> nsec t" "nsec t < 1000000000"
    using assms(3) by (simp_all add: validTime_def)
  have ne: "?inner \<noteq> []" using clockText_plain(2) [OF assms(1,3)] by simp
  have m: "MarshalJSON \<lparr>Time = t\<rparr> = Inr ?raw" using assms(1,2) by (rule MarshalJSON_text)
  have a: "UnmarshalJSON d ?raw = (None, d\<lparr>Time := t\<rparr>)" if z: "zoneOffset t = 0"
  proof -
    have fz: "formatZone (zoneOffset t) = ''Z''" using z by (simp add: formatZone_def)
    have ps: "parseSeconds (appendInt (second t) 2 @ formatNano (nsec t) @ ''Z'')
                = Inr (second t, nsec t, ''Z'')"
      using parseSeconds_formatNano [OF v, of "CHR ''Z''" "[]"] by (simp add: isDigit_def)
    have "time_Parse ?inner = Inr (t\<lparr>nsec := nsec t, zoneOffset := 0\<rparr>)"
      unfolding fz time_Parse_clock_general [OF assms] ps
      by (simp add: orReturn_def parseZone_Z check_def)
    then have tp: "time_Parse ?inner = Inr t" using z by simp
    have pl: "list_all plainChar ?inner"
      using clockText_plain(1) [OF assms(1,3)] formatNano_plain [OF v(3,4)]
      by (simp add: fz)
    show ?thesis using UnmarshalJSON_quoted [OF pl ne, of d] tp by simp
  qed
  have b: "UnmarshalJSON d ?raw = (Some ParseTimeError, d)"
    if z: "zoneOffset t \<noteq> 0" "\<bar>zoneOffset t\<bar> < 360000"
  proof -
    obtain sg hs ms where fz: "formatZone (zoneOffset t) = sg # hs @ CHR '':'' # ms"
      and sg: "sg = CHR ''+'' \<or> sg = CHR ''-''"
      and hm: "length hs = 2" "list_all isDigit hs" "length ms = 2" "list_all isDigit ms"
      using formatZone_colon [OF z] by blast
    have nd: "\<not> isDigit sg" "sg \<noteq> CHR ''.''" using sg by (auto simp: isDigit_def)
    have ps: "parseSeconds (appendInt (second t) 2 @ formatNano (nsec t) @ sg # hs @ CHR '':'' # ms)
                = Inr (second t, nsec t, sg # hs @ CHR '':'' # ms)"
      using v nd by (rule parseSeconds_formatNano)
    have pz: "parseZone (sg # hs @ CHR '':'' # ms) = Inl ParseTimeError"
      using hm(1,2,3) sg by (rule parseZone_colon)
    have tp: "time_Parse ?inner = Inl ParseTimeError"
      unfolding fz time_Parse_clock_general [OF assms] ps
      by (simp add: orReturn_def pz)
    have pl: "list_all plainChar ?inner"
      using clockText_plain(1) [OF assms(1,3)] formatNano_plain [OF v(3,4)]
        formatZone_plain [OF z(2)] by simp
    show ?thesis using UnmarshalJSON_quoted [OF pl ne, of d] tp by simp
  qed
  show ?thesis using m a b by blast
qed

theorem MarshalJSON_UnmarshalJSON_witness:
  "MarshalJSON \<lparr>Time = exampleTime\<lparr>zoneOffset := 0, nsec := 250000000\<rparr>\<rparr>
     = Inr ([CHR 0x22] @ ''2020-05-02T20:00:00.25Z'' @ [CHR 0x22])
   \<and> UnmarshalJSON \<lparr>Time = zeroTime\<rparr> ([CHR 0x22] @ ''2020-05-02T20:00:00.25Z'' @ [CHR 0x22])
     = (None, \<lparr>Time = exampleTime\<lparr>zoneOffset := 0, nsec := 250000000\<rparr>\<rparr>)"
proof -
  let ?t = "exampleTime\<lparr>zoneOffset := 0, nsec := 250000000\<rparr>"
  have h: "0 \<le> year ?t" "year ?t < 10000" "validTime ?t" by code_simp+
  have m: "MarshalJSON \<lparr>Time = ?t\<rparr> = Inr ([CHR 0x22] @ ''2020-05-02T20:00:00.25Z'' @ [CHR 0x22])"
    by code_simp
  have z: "zoneOffset ?t = 0" by simp
  show ?thesis
    using MarshalJSON_UnmarshalJSON [OF h, of "\<lparr>Time = zeroTime\<rparr>"] m z by auto
qed

text \<open>Claim C9 as stated fails for a present time of the fixtures, two hours east of UTC.\<close>

theorem MarshalJSON_offset_not_decoded:
  "MarshalJSON \<lparr>Time = exampleTime\<rparr>
     = Inr ([CHR 0x22] @ ''2020-05-02T20:00:00+02:00'' @ [CHR 0x22])
   \<and> UnmarshalJSON \<lparr>Time = zeroTime\<rparr> ([CHR 0x22] @ ''2020-05-02T20:00:00+02:00'' @ [CHR 0x22])
     = (Some ParseTimeError, \<lparr>Time = zeroTime\<rparr>)
   \<and> \<not> IsZero exampleTime"
  by code_simp

end
